theory Spec2Isabelle
  imports
    Complex_Main
    "HOL-Library.Char_ord"
    "HOL-Library.List_Lexorder"
    "HOL-Library.Product_Lexorder"
    "HOL-Library.AList"
    "HOL-Library.Multiset"
begin

chapter \<open>The trade-analysis pipeline: code mapper, pairwise normalizer, trade fetcher, merge engine\<close>

text \<open>
  A shallow embedding of \<^verbatim>\<open>src/trade_analysis.py\<close>. Tables (pandas data frames) are
  lists of column labels with rows of cells, dictionaries are association lists in insertion
  order, every exception of the program is a value \<open>Inl e\<close>, and what the program reads from
  the outside world (the mapping sheet, the CEPII file, the trade service, the completion order
  of the worker pool, the numeric parser of pandas) is a parameter of the function that reads it.
  Writing the CSV and Excel outputs and the progress messages are left out.
\<close>

section \<open>Values\<close>

datatype error = KeyError | TypeError | ValueError | AttributeError | MergeError | ServiceError

text \<open>
  A cell of a data frame: missing (pandas' NaN), a Python string, or a number. Strings are
  compared as Python compares them, lexicographically by character code
  (\<open>List_Lexorder\<close> over \<open>Char_ord\<close>).
\<close>

datatype cell = NaN | Str string | Num rat

record frame =
  columns :: "string list"
  rows :: "cell list list"

text \<open>\<^verbatim>\<open>pd.DataFrame()\<close> and \<^verbatim>\<open>df.empty\<close> (no column or no row).\<close>

definition empty_frame :: frame where
  "empty_frame = \<lparr>columns = [], rows = []\<rparr>"

definition pd_empty :: "frame \<Rightarrow> bool" where
  "pd_empty df \<longleftrightarrow> columns df = [] \<or> rows df = []"

text \<open>\<^verbatim>\<open>pd.notna(v)\<close>.\<close>

fun notna :: "cell \<Rightarrow> bool" where
  "notna NaN = False"
| "notna _ = True"

text \<open>Running a step that may raise over a list, stopping at the first exception.\<close>

fun traverse :: "('a \<Rightarrow> error + 'b) \<Rightarrow> 'a list \<Rightarrow> error + 'b list" where
  "traverse f [] = Inr []"
| "traverse f (x # xs) =
     (case f x of Inl e \<Rightarrow> Inl e
      | Inr y \<Rightarrow> (case traverse f xs of Inl e \<Rightarrow> Inl e | Inr ys \<Rightarrow> Inr (y # ys)))"

section \<open>Python strings\<close>

text \<open>\<^verbatim>\<open>str.upper\<close>, \<^verbatim>\<open>str.strip\<close> and \<^verbatim>\<open>str.zfill\<close> on ASCII text.\<close>

definition upper_char :: "char \<Rightarrow> char" where
  "upper_char c =
     (case map_of (zip ''abcdefghijklmnopqrstuvwxyz'' ''ABCDEFGHIJKLMNOPQRSTUVWXYZ'') c of
        Some u \<Rightarrow> u
      | None \<Rightarrow> c)"

definition upper :: "string \<Rightarrow> string" where
  "upper s = map upper_char s"

definition is_space :: "char \<Rightarrow> bool" where
  "is_space c \<longleftrightarrow>
     c \<in> set [CHR '' '', CHR 0x09, CHR 0x0A, CHR 0x0B, CHR 0x0C, CHR 0x0D,
              CHR 0x1C, CHR 0x1D, CHR 0x1E, CHR 0x1F]"

definition strip :: "string \<Rightarrow> string" where
  "strip s = rev (dropWhile is_space (rev (dropWhile is_space s)))"

definition zfill :: "nat \<Rightarrow> string \<Rightarrow> string" where
  "zfill n s =
     (if n \<le> length s then s
      else (case s of
              c # r \<Rightarrow>
                if c = CHR ''+'' \<or> c = CHR ''-''
                then c # replicate (n - length s) CHR ''0'' @ r
                else replicate (n - length s) CHR ''0'' @ s
            | [] \<Rightarrow> replicate n CHR ''0''))"

section \<open>Python dictionaries\<close>

text \<open>
  A \<^verbatim>\<open>dict\<close> is an association list with distinct keys in insertion order:
  \<^verbatim>\<open>d[k] = v\<close> replaces the value in place or appends, \<^verbatim>\<open>dict(pairs)\<close> and
  \<^verbatim>\<open>d.update(other)\<close> store the pairs one after the other.
\<close>

type_synonym ('k, 'v) dict = "('k \<times> 'v) list"

definition dict_update :: "('k, 'v) dict \<Rightarrow> ('k \<times> 'v) list \<Rightarrow> ('k, 'v) dict" where
  "dict_update d kvs = fold (\<lambda>(k, v). AList.update k v) kvs d"

definition dict_of :: "('k \<times> 'v) list \<Rightarrow> ('k, 'v) dict" where
  "dict_of kvs = dict_update [] kvs"

section \<open>Code mapper\<close>

text \<open>The dictionary literal \<^verbatim>\<open>HARDCODED_COMTRADE_MAP\<close> (it lists JPN twice).\<close>

definition HARDCODED_ENTRIES :: "(string \<times> string) list" where
  "HARDCODED_ENTRIES =
    [
     (''USA'', ''842''), (''THA'', ''764''), (''CHN'', ''156''), (''DEU'', ''276''), (''JPN'', ''392''),
     (''AFG'', ''004''), (''ALB'', ''008''), (''DZA'', ''012''), (''ASM'', ''016''), (''AND'', ''020''),
     (''AGO'', ''024''), (''ATG'', ''028''), (''AZE'', ''031''), (''ARG'', ''032''), (''AUS'', ''036''),
     (''AUT'', ''040''), (''BHS'', ''044''), (''BHR'', ''048''), (''BGD'', ''050''), (''ARM'', ''051''),
     (''BRB'', ''052''), (''BEL'', ''056''), (''BMU'', ''060''), (''BTN'', ''064''), (''BOL'', ''068''),
     (''BIH'', ''070''), (''BWA'', ''072''), (''BRA'', ''076''), (''BLZ'', ''084''), (''SLB'', ''090''),
     (''BRN'', ''096''), (''BGR'', ''100''), (''MMR'', ''104''), (''BDI'', ''108''), (''BLR'', ''112''),
     (''KHM'', ''116''), (''CMR'', ''120''), (''CAN'', ''124''), (''CPV'', ''132''), (''CAF'', ''140''),
     (''LKA'', ''144''), (''TCD'', ''148''), (''CHL'', ''152''), (''COL'', ''170''), (''COM'', ''174''),
     (''COG'', ''178''), (''CRI'', ''188''), (''HRV'', ''191''), (''CUB'', ''192''), (''CYP'', ''196''),
     (''CZE'', ''203''), (''BEN'', ''204''), (''DNK'', ''208''), (''DOM'', ''214''), (''ECU'', ''218''),
     (''EGY'', ''818''), (''SLV'', ''222''), (''GNQ'', ''226''), (''ERI'', ''232''), (''EST'', ''233''),
     (''ETH'', ''231''), (''FRO'', ''234''), (''FIN'', ''246''), (''FRA'', ''250''), (''GAB'', ''266''),
     (''GMB'', ''270''), (''GEO'', ''268''), (''GHA'', ''288''), (''GRC'', ''300''), (''GRL'', ''304''),
     (''GRD'', ''308''), (''GTM'', ''320''), (''GIN'', ''324''), (''GUY'', ''328''), (''HTI'', ''332''),
     (''HND'', ''340''), (''HKG'', ''344''), (''HUN'', ''348''), (''ISL'', ''352''), (''IND'', ''356''),
     (''IDN'', ''360''), (''IRN'', ''364''), (''IRQ'', ''368''), (''IRL'', ''372''), (''ISR'', ''376''),
     (''ITA'', ''380''), (''JAM'', ''388''), (''JPN'', ''392''), (''KAZ'', ''398''), (''JOR'', ''400''),
     (''KEN'', ''404''), (''PRK'', ''408''), (''KOR'', ''410''), (''KWT'', ''414''), (''KGZ'', ''417''),
     (''LAO'', ''418''), (''LVA'', ''428''), (''LBN'', ''422''), (''LSO'', ''426''), (''LBR'', ''430''),
     (''LBY'', ''434''), (''LTU'', ''440''), (''LUX'', ''442''), (''MAC'', ''446''), (''MDG'', ''450''),
     (''MWI'', ''454''), (''MYS'', ''458''), (''MDV'', ''462''), (''MLI'', ''466''), (''MLT'', ''470''),
     (''MRT'', ''478''), (''MUS'', ''480''), (''MEX'', ''484''), (''MNG'', ''496''), (''MAR'', ''504''),
     (''MOZ'', ''508''), (''NAM'', ''516''), (''NPL'', ''524''), (''NLD'', ''528''), (''NZL'', ''554''),
     (''NIC'', ''558''), (''NER'', ''562''), (''NGA'', ''566''), (''NOR'', ''578''), (''OMN'', ''512''),
     (''PAK'', ''586''), (''PAN'', ''591''), (''PNG'', ''598''), (''PRY'', ''600''), (''PER'', ''604''),
     (''PHL'', ''608''), (''POL'', ''616''), (''PRT'', ''620''), (''QAT'', ''634''), (''ROU'', ''642''),
     (''RUS'', ''643''), (''RWA'', ''646''), (''WSM'', ''882''), (''SMR'', ''674''), (''SAU'', ''682''),
     (''SEN'', ''686''), (''SYC'', ''690''), (''SLE'', ''694''), (''SGP'', ''702''), (''SVK'', ''703''),
     (''SVN'', ''705''), (''SOM'', ''706''), (''ZAF'', ''710''), (''ESP'', ''724''), (''SDN'', ''729''),
     (''SUR'', ''740''), (''SWE'', ''752''), (''CHE'', ''756''), (''SYR'', ''760''), (''TJK'', ''762''),
     (''TGO'', ''768''), (''TTO'', ''780''), (''TUN'', ''788''), (''TUR'', ''792''), (''TKM'', ''795''),
     (''UGA'', ''800''), (''UKR'', ''804''), (''ARE'', ''784''), (''GBR'', ''826''), (''TZA'', ''834''),
     (''URY'', ''858''), (''UZB'', ''860''), (''VEN'', ''862''), (''VNM'', ''704''), (''YEM'', ''887''),
     (''ZMB'', ''894''), (''ZWE'', ''716''), (''TWN'', ''158''), (''ESH'', ''732'')
    ]"

definition HARDCODED_COMTRADE_MAP :: "(string, string) dict" where
  "HARDCODED_COMTRADE_MAP = dict_of HARDCODED_ENTRIES"

text \<open>
  \<^verbatim>\<open>load_country_mapping\<close>. The mapping file is \<open>None\<close> when the path is unset or
  does not exist, \<open>Some (Inl e)\<close> when reading the sheet or its two columns raises, and
  \<open>Some (Inr sheet)\<close> with the rows of the sheet as pairs (ISO3 cell, CountryCode cell), both
  read as text.
\<close>

definition load_country_mapping ::
    "(error + (string \<times> string) list) option \<Rightarrow> (string, string) dict" where
  "load_country_mapping mapping_file =
     (let loaded_map =
        (case mapping_file of
           Some (Inr sheet) \<Rightarrow>
             dict_of (zip (map (\<lambda>r. upper (strip (fst r))) sheet)
                          (map (\<lambda>r. zfill 3 (strip (snd r))) sheet))
         | Some (Inl e) \<Rightarrow> []
         | None \<Rightarrow> [])
      in if loaded_map \<noteq> [] then dict_update loaded_map HARDCODED_COMTRADE_MAP
         else HARDCODED_COMTRADE_MAP)"

text \<open>
  \<^verbatim>\<open>get_reporter_codes\<close>, from \<^verbatim>\<open>CONFIG["REPORTERS"]\<close> and \<^verbatim>\<open>COUNTRY_MAP\<close>;
  \<^verbatim>\<open>sorted(set(out))\<close> is \<open>sort (remdups out)\<close>.
\<close>

definition get_reporter_codes :: "string list \<Rightarrow> (string, string) dict \<Rightarrow> string list" where
  "get_reporter_codes reporters country_map =
     (if reporters = [''all''] then sort (remdups (map snd country_map))
      else sort (remdups (concat (map (\<lambda>iso3.
             (case map_of country_map (upper iso3) of Some code \<Rightarrow> [code] | None \<Rightarrow> []))
             reporters))))"

text \<open>\<^verbatim>\<open>get_partner_iso_list\<close>: \<open>None\<close> for the wildcard.\<close>

definition get_partner_iso_list :: "string list \<Rightarrow> string list option" where
  "get_partner_iso_list partners = (if partners = [''all''] then None else Some partners)"

section \<open>Column arithmetic, cell by cell\<close>

text \<open>
  pandas compares two object columns element by element: a comparison with a missing value
  is false, two strings or two numbers compare, a string against a number raises.
\<close>

fun lt_cell :: "cell \<Rightarrow> cell \<Rightarrow> error + bool" where
  "lt_cell NaN _ = Inr False"
| "lt_cell _ NaN = Inr False"
| "lt_cell (Str a) (Str b) = Inr (a < b)"
| "lt_cell (Num a) (Num b) = Inr (a < b)"
| "lt_cell _ _ = Inl TypeError"

text \<open>\<^verbatim>\<open>x + y\<close> on object columns: missing stays missing, text is concatenated.\<close>

fun add_cell :: "cell \<Rightarrow> cell \<Rightarrow> error + cell" where
  "add_cell NaN _ = Inr NaN"
| "add_cell _ NaN = Inr NaN"
| "add_cell (Str a) (Str b) = Inr (Str (a @ b))"
| "add_cell (Num a) (Num b) = Inr (Num (a + b))"
| "add_cell _ _ = Inl TypeError"

text \<open>\<^verbatim>\<open>x + "-" + y\<close>.\<close>

definition dash_join :: "cell \<Rightarrow> cell \<Rightarrow> error + cell" where
  "dash_join x y =
     (case add_cell x (Str ''-'') of Inl e \<Rightarrow> Inl e | Inr xd \<Rightarrow> add_cell xd y)"

text \<open>
  The order-invariant pair of the normalizer, one row at a time:
  \<^verbatim>\<open>key_a = np.where(iso3_o < iso3_d, iso3_o, iso3_d)\<close> and
  \<^verbatim>\<open>key_b = np.where(iso3_o < iso3_d, iso3_d, iso3_o)\<close>.
\<close>

definition key_a :: "cell \<Rightarrow> cell \<Rightarrow> error + cell" where
  "key_a iso3_o iso3_d =
     (case lt_cell iso3_o iso3_d of Inl e \<Rightarrow> Inl e
      | Inr b \<Rightarrow> Inr (if b then iso3_o else iso3_d))"

definition key_b :: "cell \<Rightarrow> cell \<Rightarrow> error + cell" where
  "key_b iso3_o iso3_d =
     (case lt_cell iso3_o iso3_d of Inl e \<Rightarrow> Inl e
      | Inr b \<Rightarrow> Inr (if b then iso3_d else iso3_o))"

text \<open>\<^verbatim>\<open>cepii_key = key_a + "-" + key_b\<close> of a raw row (origin, destination).\<close>

definition cepii_key :: "cell \<Rightarrow> cell \<Rightarrow> error + cell" where
  "cepii_key iso3_o iso3_d =
     (case key_a iso3_o iso3_d of Inl e \<Rightarrow> Inl e
      | Inr ka \<Rightarrow> (case key_b iso3_o iso3_d of Inl e \<Rightarrow> Inl e
          | Inr kb \<Rightarrow> dash_join ka kb))"

text \<open>
  The key of a trade row in the merge engine:
  \<^verbatim>\<open>np.where(reporterISO < partnerISO, reporterISO + "-" + partnerISO,
  partnerISO + "-" + reporterISO)\<close>; the three columns are computed before the choice.
\<close>

definition cepii_merge_key :: "cell \<Rightarrow> cell \<Rightarrow> error + cell" where
  "cepii_merge_key reporterISO partnerISO =
     (case lt_cell reporterISO partnerISO of Inl e \<Rightarrow> Inl e
      | Inr b \<Rightarrow> (case dash_join reporterISO partnerISO of Inl e \<Rightarrow> Inl e
          | Inr rp \<Rightarrow> (case dash_join partnerISO reporterISO of Inl e \<Rightarrow> Inl e
              | Inr pr \<Rightarrow> Inr (if b then rp else pr))))"

section \<open>Data frames\<close>

text \<open>
  The cell of a row under a label (the first column of that label); a row that has no such
  column reads as missing. \<open>column df c\<close> is \<^verbatim>\<open>df[c]\<close> for a label that occurs once.
\<close>

definition cell_at :: "string list \<Rightarrow> cell list \<Rightarrow> string \<Rightarrow> cell" where
  "cell_at cols r c = (case map_of (zip cols r) c of Some v \<Rightarrow> v | None \<Rightarrow> NaN)"

definition column :: "frame \<Rightarrow> string \<Rightarrow> cell list" where
  "column df c = map (\<lambda>r. cell_at (columns df) r c) (rows df)"

text \<open>Every row has one cell per column, as in every pandas frame.\<close>

definition wf_frame :: "frame \<Rightarrow> bool" where
  "wf_frame df \<longleftrightarrow> list_all (\<lambda>r. length r = length (columns df)) (rows df)"

text \<open>A row laid out under other labels; labels it does not have are filled with NaN.\<close>

definition realign :: "string list \<Rightarrow> string list \<Rightarrow> cell list \<Rightarrow> cell list" where
  "realign cols cols' r = map (cell_at cols r) cols'"

text \<open>The labels of a list in the order of their first appearance.\<close>

definition first_seen :: "'a list \<Rightarrow> 'a list" where
  "first_seen xs = rev (remdups (rev xs))"

text \<open>
  \<^verbatim>\<open>pd.concat(frames, ignore_index=True)\<close>: frames with the same labels are stacked as
  they are; otherwise the labels are united in order of appearance and the rows realigned,
  which pandas refuses for a frame with a repeated label.
\<close>

definition pd_concat :: "frame list \<Rightarrow> error + frame" where
  "pd_concat frames =
     (case frames of
        [] \<Rightarrow> Inl ValueError
      | f # fs \<Rightarrow>
          if list_all (\<lambda>g. columns g = columns f) fs
          then Inr \<lparr>columns = columns f, rows = concat (map rows frames)\<rparr>
          else if \<not> list_all (\<lambda>g. distinct (columns g)) frames then Inl ValueError
          else (let cols = first_seen (concat (map columns frames))
                in Inr \<lparr>columns = cols,
                        rows = concat (map (\<lambda>g. map (realign (columns g) cols) (rows g))
                                           frames)\<rparr>))"

text \<open>\<^verbatim>\<open>df[df[c].isin(keep)]\<close> for a list of strings.\<close>

definition is_in :: "string list \<Rightarrow> cell \<Rightarrow> bool" where
  "is_in keep v = (case v of Str s \<Rightarrow> s \<in> set keep | _ \<Rightarrow> False)"

definition filter_isin :: "frame \<Rightarrow> string \<Rightarrow> string list \<Rightarrow> frame" where
  "filter_isin df c keep =
     \<lparr>columns = columns df,
      rows = filter (\<lambda>r. is_in keep (cell_at (columns df) r c)) (rows df)\<rparr>"

section \<open>Trade fetcher\<close>

text \<open>
  What \<^verbatim>\<open>comtradeapicall.getFinalData\<close> hands back: a table, or a JSON value
  (\<open>JNull\<close> is Python's \<^verbatim>\<open>None\<close>). The call itself is the parameter \<open>api\<close>, which may
  raise; \<^verbatim>\<open>pd.json_normalize\<close> is the parameter \<open>json_normalize\<close>, which may raise too.
\<close>

datatype json = JNull | JStr string | JNum rat | JList "json list" | JDict "(string \<times> json) list"

datatype response = RFrame frame | RJson json

text \<open>
  \<^verbatim>\<open>fetch_single\<close>: every exception inside the \<^verbatim>\<open>try\<close> block ends in
  \<^verbatim>\<open>return pd.DataFrame()\<close>. \<^verbatim>\<open>len\<close> of a table is its number of rows, of a
  dictionary its number of keys; \<^verbatim>\<open>len\<close> of a number raises.
\<close>

definition fetch_single ::
    "(int \<Rightarrow> string \<Rightarrow> error + response) \<Rightarrow> (json \<Rightarrow> error + frame) \<Rightarrow>
     int \<Rightarrow> string \<Rightarrow> frame" where
  "fetch_single api json_normalize year reporter_code =
     (case api year reporter_code of
        Inl e \<Rightarrow> empty_frame
      | Inr (RFrame df) \<Rightarrow> if 0 < length (rows df) then df else empty_frame
      | Inr (RJson JNull) \<Rightarrow> empty_frame
      | Inr (RJson (JDict kvs)) \<Rightarrow>
          if 0 < length kvs
          then (case map_of kvs ''dataset'' of
                  Some dataset \<Rightarrow>
                    (case json_normalize dataset of Inl e \<Rightarrow> empty_frame | Inr df \<Rightarrow> df)
                | None \<Rightarrow> empty_frame)
          else empty_frame
      | Inr (RJson (JList xs)) \<Rightarrow>
          if 0 < length xs
          then (case json_normalize (JList xs) of Inl e \<Rightarrow> empty_frame | Inr df \<Rightarrow> df)
          else empty_frame
      | Inr (RJson (JStr s)) \<Rightarrow> empty_frame
      | Inr (RJson (JNum n)) \<Rightarrow> empty_frame)"

text \<open>
  \<^verbatim>\<open>[reporter_codes[i:i + group_size] for i in range(0, len(reporter_codes), group_size)]\<close>
\<close>

definition reporter_groups :: "nat \<Rightarrow> 'a list \<Rightarrow> 'a list list" where
  "reporter_groups group_size reporter_codes =
     map (\<lambda>k. take group_size (drop (k * group_size) reporter_codes))
         [0 ..< (length reporter_codes + group_size - 1) div group_size]"

text \<open>
  One year of the loop: the units of a group are submitted to the pool together and their
  results are appended in the order in which they complete, \<open>completed year group\<close>, a
  parameter; empty results are skipped.
\<close>

definition year_data ::
    "(int \<Rightarrow> string \<Rightarrow> error + response) \<Rightarrow> (json \<Rightarrow> error + frame) \<Rightarrow>
     (int \<Rightarrow> string list \<Rightarrow> string list) \<Rightarrow> string list \<Rightarrow> int \<Rightarrow> frame list" where
  "year_data api json_normalize completed reporter_codes year =
     filter (\<lambda>df_chunk. \<not> pd_empty df_chunk)
       (concat (map (\<lambda>group. map (fetch_single api json_normalize year) (completed year group))
                    (reporter_groups 20 reporter_codes)))"

definition year_table ::
    "(int \<Rightarrow> string \<Rightarrow> error + response) \<Rightarrow> (json \<Rightarrow> error + frame) \<Rightarrow>
     (int \<Rightarrow> string list \<Rightarrow> string list) \<Rightarrow> string list \<Rightarrow> int \<Rightarrow> error + frame list" where
  "year_table api json_normalize completed reporter_codes year =
     (let yd = year_data api json_normalize completed reporter_codes year
      in if yd \<noteq> [] then (case pd_concat yd of Inl e \<Rightarrow> Inl e | Inr combined \<Rightarrow> Inr [combined])
         else Inr [])"

text \<open>The partner filter at the end of \<^verbatim>\<open>fetch_un_comtrade_data\<close>.\<close>

definition partner_filter :: "string list \<Rightarrow> frame \<Rightarrow> frame" where
  "partner_filter partners merged =
     (case get_partner_iso_list partners of
        Some partner_keep_list \<Rightarrow>
          if ''partnerISO'' \<in> set (columns merged)
          then filter_isin merged ''partnerISO'' partner_keep_list
          else merged
      | None \<Rightarrow> merged)"

text \<open>
  \<^verbatim>\<open>fetch_un_comtrade_data\<close>, from \<^verbatim>\<open>CONFIG["REPORTERS"]\<close>, \<^verbatim>\<open>CONFIG["PARTNERS"]\<close>,
  \<^verbatim>\<open>CONFIG["YEARS"]\<close> and \<^verbatim>\<open>COUNTRY_MAP\<close>.
\<close>

definition fetch_un_comtrade_data ::
    "(int \<Rightarrow> string \<Rightarrow> error + response) \<Rightarrow> (json \<Rightarrow> error + frame) \<Rightarrow>
     (int \<Rightarrow> string list \<Rightarrow> string list) \<Rightarrow>
     string list \<Rightarrow> string list \<Rightarrow> int list \<Rightarrow> (string, string) dict \<Rightarrow> error + frame" where
  "fetch_un_comtrade_data api json_normalize completed reporters partners years country_map =
     (let reporter_codes = get_reporter_codes reporters country_map
      in if reporter_codes = [] then Inr empty_frame
         else (case traverse (year_table api json_normalize completed reporter_codes) years of
                 Inl e \<Rightarrow> Inl e
               | Inr per_year \<Rightarrow>
                   (let all_years_data = concat per_year
                    in if all_years_data = [] then Inr empty_frame
                       else (case pd_concat all_years_data of
                               Inl e \<Rightarrow> Inl e
                             | Inr merged \<Rightarrow> Inr (partner_filter partners merged)))))"

section \<open>Pairwise normalizer\<close>

text \<open>
  The CEPII file as \<^verbatim>\<open>pd.read_csv(input_path, dtype=str)\<close> reads it: every cell is text
  or missing.
\<close>

record csv_file =
  csv_columns :: "string list"
  csv_rows :: "string option list list"

fun cell_of_text :: "string option \<Rightarrow> cell" where
  "cell_of_text None = NaN"
| "cell_of_text (Some s) = Str s"

text \<open>The cells that such a file can hold.\<close>

fun text_cell :: "cell \<Rightarrow> bool" where
  "text_cell (Num q) = False"
| "text_cell _ = True"

definition read_csv :: "csv_file \<Rightarrow> frame" where
  "read_csv f = \<lparr>columns = csv_columns f, rows = map (map cell_of_text) (csv_rows f)\<rparr>"

definition all_cepii_cols :: "string list" where
  "all_cepii_cols =
    [
     ''iso3_o'', ''iso3_d'', ''distw_harmonic'', ''distw_arithmetic'',
     ''distw_harmonic_jh'', ''distw_arithmetic_jh'', ''dist'', ''main_city_source_o'',
     ''main_city_source_d'', ''distcap'', ''contig'', ''diplo_disagreement'',
     ''scaled_sci_2021'', ''comlang_off'', ''comlang_ethno'', ''comcol'',
     ''col45'', ''legal_old_o'', ''legal_old_d'', ''legal_new_o'',
     ''legal_new_d'', ''comleg_pretrans'', ''comleg_posttrans'', ''transition_legalchange'',
     ''comrelig'', ''heg_o'', ''heg_d'', ''col_dep_ever'',
     ''col_dep'', ''col_dep_end_year'', ''col_dep_end_conflict'', ''empire'',
     ''sibling_ever'', ''sibling'', ''sever_year'', ''sib_conflict''
    ]"

text \<open>\<^verbatim>\<open>df[cols]\<close> for a list of labels that the frame has.\<close>

definition select_columns :: "frame \<Rightarrow> string list \<Rightarrow> frame" where
  "select_columns df cols =
     \<lparr>columns = cols, rows = map (realign (columns df) cols) (rows df)\<rparr>"

text \<open>
  \<^verbatim>\<open>df[c] = values\<close>: the column of that label is overwritten, a new label is
  appended on the right.
\<close>

definition set_column :: "frame \<Rightarrow> string \<Rightarrow> cell list \<Rightarrow> frame" where
  "set_column df c vals =
     (if c \<in> set (columns df)
      then \<lparr>columns = columns df,
            rows = map (\<lambda>(r, v). map (\<lambda>(l, x). if l = c then v else x) (zip (columns df) r))
                       (zip (rows df) vals)\<rparr>
      else \<lparr>columns = columns df @ [c],
            rows = map (\<lambda>(r, v). r @ [v]) (zip (rows df) vals)\<rparr>)"

text \<open>
  \<^verbatim>\<open>df[c]\<close> where the program needs one column: a label that occurs twice selects a
  frame, on which the comparison, \<^verbatim>\<open>pd.to_numeric\<close> and the aggregation raise.
\<close>

definition series :: "frame \<Rightarrow> string \<Rightarrow> error \<Rightarrow> error + cell list" where
  "series df c e =
     (if c \<notin> set (columns df) then Inl KeyError
      else if count_list (columns df) c \<noteq> 1 then Inl e
      else Inr (column df c))"

text \<open>
  \<^verbatim>\<open>pd.to_numeric(..., errors="coerce")\<close> on a cell; \<open>to_numeric\<close> is the numeric
  parser of pandas on a text.
\<close>

fun to_numeric_cell :: "(string \<Rightarrow> rat option) \<Rightarrow> cell \<Rightarrow> cell" where
  "to_numeric_cell to_numeric (Str s) = (case to_numeric s of Some q \<Rightarrow> Num q | None \<Rightarrow> NaN)"
| "to_numeric_cell to_numeric v = v"

definition coerce_column :: "(string \<Rightarrow> rat option) \<Rightarrow> string \<Rightarrow> frame \<Rightarrow> error + frame" where
  "coerce_column to_numeric c df =
     (case series df c TypeError of
        Inl e \<Rightarrow> Inl e
      | Inr vals \<Rightarrow> Inr (set_column df c (map (to_numeric_cell to_numeric) vals)))"

text \<open>A \<^verbatim>\<open>for\<close> loop that updates a frame and may raise.\<close>

fun for_each :: "('a \<Rightarrow> 's \<Rightarrow> error + 's) \<Rightarrow> 'a list \<Rightarrow> 's \<Rightarrow> error + 's" where
  "for_each f [] s = Inr s"
| "for_each f (x # xs) s = (case f x s of Inl e \<Rightarrow> Inl e | Inr s' \<Rightarrow> for_each f xs s')"

text \<open>The local function \<^verbatim>\<open>first_nonnull\<close>.\<close>

fun first_nonnull :: "cell list \<Rightarrow> cell" where
  "first_nonnull [] = NaN"
| "first_nonnull (v # vs) = (if notna v then v else first_nonnull vs)"

text \<open>
  \<^verbatim>\<open>df.groupby([ka, kb], as_index=False).agg({c: first_nonnull, ...})\<close>. The two key
  columns hold what \<open>key_a\<close> and \<open>key_b\<close> make of two text columns, a string or NaN; rows
  with a missing key are dropped, the groups come out sorted by key, and inside a group the
  rows keep the order of the frame.
\<close>

definition group_key :: "string list \<Rightarrow> string \<Rightarrow> string \<Rightarrow> cell list \<Rightarrow> (string \<times> string) option" where
  "group_key cols ka kb r =
     (case (cell_at cols r ka, cell_at cols r kb) of
        (Str a, Str b) \<Rightarrow> Some (a, b)
      | _ \<Rightarrow> None)"

definition groupby_agg :: "frame \<Rightarrow> string \<Rightarrow> string \<Rightarrow> string list \<Rightarrow> error + frame" where
  "groupby_agg df ka kb agg_cols =
     (if count_list (columns df) ka \<noteq> 1 \<or> count_list (columns df) kb \<noteq> 1 then Inl ValueError
      else if \<not> list_all (\<lambda>c. count_list (columns df) c = 1) agg_cols then Inl AttributeError
      else Inr \<lparr>columns = [ka, kb] @ agg_cols,
                rows = map (\<lambda>k. [Str (fst k), Str (snd k)]
                               @ map (\<lambda>c. first_nonnull
                                       (map (\<lambda>r. cell_at (columns df) r c)
                                            (filter (\<lambda>r. group_key (columns df) ka kb r = Some k)
                                                    (rows df))))
                                     agg_cols)
                           (sort (remdups (List.map_filter (group_key (columns df) ka kb)
                                                           (rows df))))\<rparr>)"

text \<open>
  \<^verbatim>\<open>prepare_cepii_data\<close>, from \<^verbatim>\<open>CONFIG["CEPII_VARIABLES"]\<close> and the file at
  \<^verbatim>\<open>CONFIG["CEPII_PATH"]\<close>: \<open>None\<close> when the path is unset or does not exist,
  \<open>Some (Inl e)\<close> when \<^verbatim>\<open>read_csv\<close> raises.
\<close>

definition cols_to_keep :: "string list \<Rightarrow> frame \<Rightarrow> string list" where
  "cols_to_keep cepii_variables df =
     (if cepii_variables = [''all'']
      then filter (\<lambda>c. c \<notin> set [''iso3_o'', ''iso3_d''] \<and> c \<in> set (columns df)) all_cepii_cols
      else filter (\<lambda>c. c \<in> set (columns df)) cepii_variables)"

definition num_cols_all :: "string list" where
  "num_cols_all = filter (\<lambda>c. c \<notin> set [''iso3_o'', ''iso3_d'']) all_cepii_cols"

definition add_keys :: "frame \<Rightarrow> error + frame" where
  "add_keys df =
     (case series df ''iso3_o'' ValueError of Inl e \<Rightarrow> Inl e | Inr os \<Rightarrow>
      case series df ''iso3_d'' ValueError of Inl e \<Rightarrow> Inl e | Inr ds \<Rightarrow>
      case traverse (\<lambda>(x, y). key_a x y) (zip os ds) of Inl e \<Rightarrow> Inl e | Inr kas \<Rightarrow>
      let df' = set_column df ''key_a'' kas in
      case series df' ''iso3_o'' ValueError of Inl e \<Rightarrow> Inl e | Inr os' \<Rightarrow>
      case series df' ''iso3_d'' ValueError of Inl e \<Rightarrow> Inl e | Inr ds' \<Rightarrow>
      case traverse (\<lambda>(x, y). key_b x y) (zip os' ds') of Inl e \<Rightarrow> Inl e | Inr kbs \<Rightarrow>
      Inr (set_column df' ''key_b'' kbs))"

definition prepare_cepii_data ::
    "(string \<Rightarrow> rat option) \<Rightarrow> string list \<Rightarrow> (error + csv_file) option \<Rightarrow> error + frame" where
  "prepare_cepii_data to_numeric cepii_variables cepii_file =
     (case cepii_file of
        None \<Rightarrow> Inr empty_frame
      | Some (Inl e) \<Rightarrow> Inr empty_frame
      | Some (Inr file) \<Rightarrow>
          (let df0 = read_csv file;
               keep = cols_to_keep cepii_variables df0;
               cols_to_keep_with_iso = [''iso3_o'', ''iso3_d''] @ keep;
               existing_cols = filter (\<lambda>c. c \<in> set (columns df0)) cols_to_keep_with_iso
           in if \<not> (''iso3_o'' \<in> set existing_cols \<and> ''iso3_d'' \<in> set existing_cols)
              then Inr empty_frame
              else
               (let df1 = select_columns df0 existing_cols;
                    num_cols = filter (\<lambda>c. c \<in> set num_cols_all) existing_cols
                in case for_each (coerce_column to_numeric) num_cols df1 of Inl e \<Rightarrow> Inl e
                   | Inr df2 \<Rightarrow>
                  (case add_keys df2 of Inl e \<Rightarrow> Inl e
                   | Inr df3 \<Rightarrow>
                    (let agg_dict = first_seen (filter (\<lambda>c. c \<in> set (columns df3)) keep)
                     in if agg_dict = [] then Inr empty_frame
                        else
                         (case groupby_agg df3 ''key_a'' ''key_b'' agg_dict of Inl e \<Rightarrow> Inl e
                          | Inr collapsed \<Rightarrow>
                           (case traverse (\<lambda>r. dash_join (cell_at (columns collapsed) r ''key_a'')
                                                          (cell_at (columns collapsed) r ''key_b''))
                                          (rows collapsed) of Inl e \<Rightarrow> Inl e
                            | Inr ks \<Rightarrow>
                               Inr (select_columns (set_column collapsed ''cepii_key'' ks)
                                      ([''cepii_key''] @ keep)))))))))"

section \<open>Merge engine\<close>

text \<open>\<^verbatim>\<open>df.rename(columns={...})\<close> and \<^verbatim>\<open>df.add_suffix(s)\<close> change labels only.\<close>

definition rename_columns :: "(string \<times> string) list \<Rightarrow> frame \<Rightarrow> frame" where
  "rename_columns renames df =
     \<lparr>columns = map (\<lambda>c. case map_of renames c of Some c' \<Rightarrow> c' | None \<Rightarrow> c) (columns df),
      rows = rows df\<rparr>"

definition add_suffix :: "string \<Rightarrow> frame \<Rightarrow> frame" where
  "add_suffix s df = \<lparr>columns = map (\<lambda>c. c @ s) (columns df), rows = rows df\<rparr>"

text \<open>
  \<^verbatim>\<open>.astype("Int64")\<close> after \<^verbatim>\<open>pd.to_numeric\<close>: a number that is not whole cannot
  be cast and raises.
\<close>

fun astype_Int64 :: "cell \<Rightarrow> error + cell" where
  "astype_Int64 NaN = Inr NaN"
| "astype_Int64 (Num q) = (if of_int \<lfloor>q\<rfloor> = q then Inr (Num q) else Inl TypeError)"
| "astype_Int64 (Str s) = Inl TypeError"

text \<open>
  \<^verbatim>\<open>df_trade["year"] = pd.to_numeric(df_trade["year"], errors="coerce").astype("Int64")\<close>:
  without a year column the lookup raises \<^verbatim>\<open>KeyError\<close>; with two of them (a table that
  had both period and year) \<^verbatim>\<open>pd.to_numeric\<close> is handed a frame and raises.
\<close>

definition coerce_year :: "(string \<Rightarrow> rat option) \<Rightarrow> frame \<Rightarrow> error + frame" where
  "coerce_year to_numeric df =
     (case series df ''year'' TypeError of
        Inl e \<Rightarrow> Inl e
      | Inr ys \<Rightarrow>
          (case traverse (\<lambda>v. astype_Int64 (to_numeric_cell to_numeric v)) ys of
             Inl e \<Rightarrow> Inl e
           | Inr ys' \<Rightarrow> Inr (set_column df ''year'' ys')))"

text \<open>
  \<^verbatim>\<open>left.merge(right, how="left", ...)\<close>. A key label must exist (\<^verbatim>\<open>KeyError\<close>) and
  be unique (\<^verbatim>\<open>ValueError\<close>). Key columns of the same name on both sides appear once,
  from the left. Other labels that both sides have get the suffixes \<^verbatim>\<open>_x\<close> and
  \<^verbatim>\<open>_y\<close>, which must not create a repeated label on a side (\<^verbatim>\<open>MergeError\<close>).
  Every left row is followed by the cells of each right row with the same key, in the order
  of the right table, or by NaN cells when there is none; missing keys match each other.
  The check that pandas makes of the types of the key columns is not part of the model.
\<close>

definition key_of :: "string list \<Rightarrow> string list \<Rightarrow> cell list \<Rightarrow> cell list" where
  "key_of cols on r = map (cell_at cols r) on"

definition shared_keys :: "string list \<Rightarrow> string list \<Rightarrow> string list" where
  "shared_keys left_on right_on = map fst (filter (\<lambda>(l, r). l = r) (zip left_on right_on))"

definition joined_cells :: "string list \<Rightarrow> string list \<Rightarrow> cell list \<Rightarrow> cell list" where
  "joined_cells shared cols r = map snd (filter (\<lambda>(c, v). c \<notin> set shared) (zip cols r))"

definition duplicated :: "string list \<Rightarrow> bool list" where
  "duplicated xs = map (\<lambda>i. xs ! i \<in> set (take i xs)) [0 ..< length xs]"

definition suffix_clash :: "string list \<Rightarrow> string list \<Rightarrow> bool" where
  "suffix_clash old new = list_ex (\<lambda>(d', d). d' \<and> \<not> d) (zip (duplicated new) (duplicated old))"

definition merge_left :: "frame \<Rightarrow> frame \<Rightarrow> string list \<Rightarrow> string list \<Rightarrow> error + frame" where
  "merge_left left right left_on right_on =
     (if \<not> list_all (\<lambda>k. k \<in> set (columns left)) left_on
         \<or> \<not> list_all (\<lambda>k. k \<in> set (columns right)) right_on then Inl KeyError
      else if \<not> list_all (\<lambda>k. count_list (columns left) k = 1) left_on
         \<or> \<not> list_all (\<lambda>k. count_list (columns right) k = 1) right_on then Inl ValueError
      else
        (let shared = shared_keys left_on right_on;
             rcols = filter (\<lambda>c. c \<notin> set shared) (columns right);
             lcols' = map (\<lambda>c. if c \<notin> set shared \<and> c \<in> set rcols then c @ ''_x'' else c)
                          (columns left);
             rcols' = map (\<lambda>c. if c \<in> set (columns left) then c @ ''_y'' else c) rcols
         in if suffix_clash (columns left) lcols' \<or> suffix_clash rcols rcols' then Inl MergeError
            else Inr \<lparr>columns = lcols' @ rcols',
                      rows = concat (map (\<lambda>l.
                        (case filter (\<lambda>r. key_of (columns right) right_on r
                                            = key_of (columns left) left_on l) (rows right) of
                           [] \<Rightarrow> [l @ replicate (length rcols) NaN]
                         | ms \<Rightarrow> map (\<lambda>r. l @ joined_cells shared (columns right) r) ms))
                        (rows left))\<rparr>))"

text \<open>\<^verbatim>\<open>df.drop(columns=labels, errors='ignore')\<close>.\<close>

definition drop_columns :: "string list \<Rightarrow> frame \<Rightarrow> frame" where
  "drop_columns labels df =
     \<lparr>columns = filter (\<lambda>c. c \<notin> set labels) (columns df),
      rows = map (joined_cells labels (columns df)) (rows df)\<rparr>"

text \<open>Section 3.2 of \<^verbatim>\<open>merge_datasets\<close>: the symmetric merge of the CEPII table.\<close>

definition merge_cepii :: "frame \<Rightarrow> frame \<Rightarrow> error + frame" where
  "merge_cepii merged df_cepii =
     (case series merged ''reporterISO'' ValueError of Inl e \<Rightarrow> Inl e | Inr rs \<Rightarrow>
      case series merged ''partnerISO'' ValueError of Inl e \<Rightarrow> Inl e | Inr ps \<Rightarrow>
      case traverse (\<lambda>(r, p). cepii_merge_key r p) (zip rs ps) of Inl e \<Rightarrow> Inl e | Inr ks \<Rightarrow>
      case merge_left (set_column merged ''cepii_merge_key'' ks) df_cepii
             [''cepii_merge_key''] [''cepii_key''] of Inl e \<Rightarrow> Inl e
      | Inr m \<Rightarrow> Inr (drop_columns [''cepii_merge_key'', ''cepii_key''] m))"

text \<open>\<^verbatim>\<open>merge_datasets(df_wb, df_trade, df_cepii)\<close>.\<close>

definition wb_side :: "string \<Rightarrow> string \<Rightarrow> frame \<Rightarrow> frame" where
  "wb_side suffix iso_label df_wb =
     rename_columns [(''countryISO'' @ suffix, iso_label), (''Year'' @ suffix, ''year'')]
       (add_suffix suffix df_wb)"

definition merge_datasets ::
    "(string \<Rightarrow> rat option) \<Rightarrow> frame \<Rightarrow> frame \<Rightarrow> frame \<Rightarrow> error + frame" where
  "merge_datasets to_numeric df_wb df_trade df_cepii =
     (if pd_empty df_trade then Inr df_trade
      else
       (case coerce_year to_numeric
               (if ''period'' \<in> set (columns df_trade)
                then rename_columns [(''period'', ''year'')] df_trade else df_trade) of
          Inl e \<Rightarrow> Inl e
        | Inr trade \<Rightarrow>
           (case merge_left trade (wb_side ''_reporter'' ''reporterISO'' df_wb)
                   [''reporterISO'', ''year''] [''reporterISO'', ''year''] of
              Inl e \<Rightarrow> Inl e
            | Inr merged1 \<Rightarrow>
               (case merge_left merged1 (wb_side ''_partner'' ''partnerISO'' df_wb)
                       [''partnerISO'', ''year''] [''partnerISO'', ''year''] of
                  Inl e \<Rightarrow> Inl e
                | Inr merged \<Rightarrow>
                    if \<not> pd_empty df_cepii \<and> ''reporterISO'' \<in> set (columns merged)
                       \<and> ''partnerISO'' \<in> set (columns merged)
                    then merge_cepii merged df_cepii
                    else Inr merged))))"

section \<open>Example inputs\<close>

text \<open>Concrete inputs on which the theorems below are instantiated.\<close>

definition example_country_map :: "(string, string) dict" where
  "example_country_map = [(''THA'', ''764''), (''USA'', ''842'')]"

definition example_trade :: frame where
  "example_trade =
     \<lparr>columns = [''reporterISO'', ''partnerISO'', ''cmdCode''],
      rows = [[Str ''USA'', Str ''THA'', Str ''01''], [Str ''USA'', Str ''CHN'', Str ''01'']]\<rparr>"

definition example_api :: "int \<Rightarrow> string \<Rightarrow> error + response" where
  "example_api year reporter_code =
     (if reporter_code = ''764'' then Inl ServiceError
      else if reporter_code = ''842'' then Inr (RFrame example_trade)
      else Inr (RJson JNull))"

definition example_json_normalize :: "json \<Rightarrow> error + frame" where
  "example_json_normalize j = Inl ValueError"

definition example_completed :: "int \<Rightarrow> string list \<Rightarrow> string list" where
  "example_completed year grp = rev grp"

definition example_no_partner :: frame where
  "example_no_partner = \<lparr>columns = [''cmdCode''], rows = [[Str ''01'']]\<rparr>"

text \<open>
  The pairwise source of the specification's scenario: two raw rows for the pair (THA, USA),
  one with contig = 0 and no comlang_off, one with no contig and comlang_off = 1, and a column
  that the embedded list does not know.
\<close>

definition example_cepii :: csv_file where
  "example_cepii =
     \<lparr>csv_columns = [''iso3_o'', ''iso3_d'', ''contig'', ''comlang_off'', ''note''],
      csv_rows = [[Some ''USA'', Some ''THA'', Some ''0'', None, Some ''7''],
                  [Some ''THA'', Some ''USA'', None, Some ''1'', Some ''x''],
                  [Some ''CHN'', Some ''THA'', Some ''n/a'', None, None]]\<rparr>"

text \<open>A numeric parser that knows the one-digit numbers.\<close>

definition example_to_numeric :: "string \<Rightarrow> rat option" where
  "example_to_numeric s =
     map_of [(''0'', 0), (''1'', 1), (''2'', 2), (''3'', 3), (''4'', 4),
             (''5'', 5), (''6'', 6), (''7'', 7), (''8'', 8), (''9'', 9)] s"

definition example_cepii_no_destination :: csv_file where
  "example_cepii_no_destination =
     \<lparr>csv_columns = [''iso3_o'', ''contig''], csv_rows = [[Some ''THA'', Some ''1'']]\<rparr>"


text \<open>
  The tables of the specification's scenario: indicators for THA and USA in 2015, trade rows
  of the reporter USA with the partners THA and CHN, and a pair table for THA-USA.
\<close>

definition example_wb :: frame where
  "example_wb =
     \<lparr>columns = [''countryISO'', ''Year'', ''SP.POP.TOTL''],
      rows = [[Str ''THA'', Num 2015, Num 70], [Str ''USA'', Num 2015, Num 320]]\<rparr>"

definition example_flows :: frame where
  "example_flows =
     \<lparr>columns = [''period'', ''reporterISO'', ''partnerISO'', ''cmdCode''],
      rows = [[Str ''5'', Str ''USA'', Str ''THA'', Str ''01''],
              [Str ''5'', Str ''USA'', Str ''CHN'', Str ''01''],
              [Str ''x'', Str ''THA'', Str ''USA'', Str ''02'']]\<rparr>"

definition example_wb5 :: frame where
  "example_wb5 =
     \<lparr>columns = [''countryISO'', ''Year'', ''SP.POP.TOTL''],
      rows = [[Str ''THA'', Num 5, Num 70], [Str ''USA'', Num 5, Num 320]]\<rparr>"

definition example_pairs :: frame where
  "example_pairs =
     \<lparr>columns = [''cepii_key'', ''contig''], rows = [[Str ''THA-USA'', Num 0]]\<rparr>"

definition example_no_year :: frame where
  "example_no_year =
     \<lparr>columns = [''reporterISO'', ''partnerISO''], rows = [[Str ''USA'', Str ''THA'']]\<rparr>"

definition example_merged :: frame where
  "example_merged =
     \<lparr>columns = [''year'', ''reporterISO'', ''partnerISO'', ''cmdCode'',
                 ''SP.POP.TOTL_reporter'', ''SP.POP.TOTL_partner'', ''contig''],
      rows = [[Num 5, Str ''USA'', Str ''THA'', Str ''01'', Num 320, Num 70, Num 0],
              [Num 5, Str ''USA'', Str ''CHN'', Str ''01'', Num 320, NaN, NaN],
              [NaN, Str ''THA'', Str ''USA'', Str ''02'', NaN, NaN, Num 0]]\<rparr>"

chapter \<open>Properties\<close>

section \<open>Dictionaries\<close>

lemma distinct_dict_update:
  "distinct (map fst d) \<Longrightarrow> distinct (map fst (dict_update d kvs))"
  unfolding dict_update_def
  by (induction kvs arbitrary: d) (auto simp: distinct_update)

lemma distinct_dict_of: "distinct (map fst (dict_of kvs))"
  unfolding dict_of_def by (rule distinct_dict_update) simp

lemma map_of_dict_update_rev:
  "map_of (dict_update d kvs) = map_of d ++ map_of (rev kvs)"
  unfolding dict_update_def
proof (induction kvs arbitrary: d)
  case Nil
  then show ?case by simp
next
  case (Cons kv kvs)
  obtain k v where kv: "kv = (k, v)" by (cases kv)
  have "map_of (fold (\<lambda>(k, v). AList.update k v) kvs (AList.update k v d))
        = map_of (AList.update k v d) ++ map_of (rev kvs)"
    by (rule Cons.IH)
  also have "\<dots> = map_of d ++ map_of (rev kvs @ [(k, v)])"
    by (simp add: update_conv' map_add_def fun_eq_iff split: option.splits)
  finally show ?case by (simp add: kv)
qed

lemma map_of_rev_distinct:
  "distinct (map fst kvs) \<Longrightarrow> map_of (rev kvs) = map_of kvs"
  by (simp add: distinct_map map_of_inject_set)

lemma map_of_dict_update:
  "distinct (map fst kvs) \<Longrightarrow> map_of (dict_update d kvs) = map_of d ++ map_of kvs"
  by (simp add: map_of_dict_update_rev map_of_rev_distinct)

section \<open>Code mapper\<close>

lemma distinct_HARDCODED: "distinct (map fst HARDCODED_COMTRADE_MAP)"
  unfolding HARDCODED_COMTRADE_MAP_def by (rule distinct_dict_of)

text \<open>
  Claim C5. Every ISO3 code of the embedded table keeps its embedded numeric code in the
  resolved mapping, whatever the external sheet says for it; and when the external sheet is
  missing or cannot be read, the resolved mapping is the embedded table itself.
\<close>

theorem load_country_mapping_embedded_wins:
  "(map_of HARDCODED_COMTRADE_MAP iso3 = Some code \<longrightarrow>
      map_of (load_country_mapping mapping_file) iso3 = Some code)
   \<and> load_country_mapping None = HARDCODED_COMTRADE_MAP
   \<and> load_country_mapping (Some (Inl e)) = HARDCODED_COMTRADE_MAP"
  by (simp add: load_country_mapping_def Let_def map_of_dict_update distinct_HARDCODED)

lemma map_of_HARDCODED: "map_of HARDCODED_COMTRADE_MAP = map_of (rev HARDCODED_ENTRIES)"
  by (simp add: HARDCODED_COMTRADE_MAP_def dict_of_def map_of_dict_update_rev)

lemma HARDCODED_ESH: "map_of HARDCODED_COMTRADE_MAP ''ESH'' = Some ''732''"
  unfolding map_of_HARDCODED by code_simp

theorem load_country_mapping_embedded_wins_witness:
  "map_of HARDCODED_COMTRADE_MAP ''ESH'' = Some ''732''
   \<and> map_of (load_country_mapping (Some (Inr [('' esh '', ''1'')]))) ''ESH'' = Some ''732''"
  using load_country_mapping_embedded_wins
          [of "''ESH''" "''732''" "Some (Inr [('' esh '', ''1'')])" KeyError]
        HARDCODED_ESH
  by simp

section \<open>Symmetric pair key\<close>

text \<open>
  Claim C1. For all ISO3 strings A and B the pair key of (A, B) is the pair key of (B, A)
  and is min(A, B) followed by a hyphen and max(A, B), for the key that the pairwise
  normalizer builds from (iso3_o, iso3_d) and for the key that the merge engine builds from
  (reporterISO, partnerISO). The normalizer computes the key in three columns: \<open>key_a\<close>
  is the minimum, \<open>key_b\<close> the maximum, and the key their join.
\<close>

theorem symmetric_key_order_invariant:
  "key_a (Str A) (Str B) = Inr (Str (min A B))
   \<and> key_b (Str A) (Str B) = Inr (Str (max A B))
   \<and> dash_join (Str (min A B)) (Str (max A B)) = Inr (Str (min A B @ ''-'' @ max A B))
   \<and> cepii_key (Str A) (Str B) = Inr (Str (min A B @ ''-'' @ max A B))
   \<and> cepii_key (Str B) (Str A) = cepii_key (Str A) (Str B)
   \<and> cepii_merge_key (Str A) (Str B) = Inr (Str (min A B @ ''-'' @ max A B))
   \<and> cepii_merge_key (Str B) (Str A) = cepii_merge_key (Str A) (Str B)"
  by (auto simp: cepii_key_def key_a_def key_b_def cepii_merge_key_def dash_join_def
                 min_def max_def)

section \<open>Trade fetcher\<close>


lemma traverse_Inr_length:
  "traverse f xs = Inr ys \<Longrightarrow> length ys = length xs"
  by (induction xs arbitrary: ys) (auto split: sum.splits)

lemma traverse_cong:
  "(\<And>x. x \<in> set xs \<Longrightarrow> f x = g x) \<Longrightarrow> traverse f xs = traverse g xs"
  by (induction xs) (auto split: sum.splits)



lemma set_first_seen [simp]: "set (first_seen xs) = set xs"
  by (simp add: first_seen_def)

lemma distinct_first_seen [simp]: "distinct (first_seen xs)"
  by (simp add: first_seen_def)





lemma get_reporter_codes_props:
  "sorted (get_reporter_codes reporters cm) \<and> distinct (get_reporter_codes reporters cm)"
  by (simp add: get_reporter_codes_def)





lemma partner_filter_columns [simp]: "columns (partner_filter partners merged) = columns merged"
  by (simp add: partner_filter_def filter_isin_def split: option.splits)









text \<open>
  Claim C7, as amended. The final table of the fetcher is the partner filter applied to the
  concatenation of the per-year tables. If the partner list is not the wildcard and the table
  has a partnerISO column, the filter retains exactly the rows whose partnerISO is a string of
  the partner list, in their order, and removes the others; if the partner list is the
  wildcard, or the table has no partnerISO column, it removes no row. The labels stay.
\<close>

theorem partner_filter_retains:
  "(partners \<noteq> [''all''] \<and> ''partnerISO'' \<in> set (columns merged) \<longrightarrow>
      rows (partner_filter partners merged)
        = filter (\<lambda>r. \<exists>p \<in> set partners. cell_at (columns merged) r ''partnerISO'' = Str p)
            (rows merged))
   \<and> (partners = [''all''] \<or> ''partnerISO'' \<notin> set (columns merged) \<longrightarrow>
        partner_filter partners merged = merged)
   \<and> columns (partner_filter partners merged) = columns merged
   \<and> (fetch_un_comtrade_data api jn completed reporters partners years cm = Inr out \<longrightarrow>
        out = empty_frame
        \<or> (\<exists>per_year all_years.
              traverse (year_table api jn completed (get_reporter_codes reporters cm)) years
                = Inr per_year
              \<and> pd_concat (concat per_year) = Inr all_years
              \<and> out = partner_filter partners all_years))"
proof -
  have isin: "is_in partners v \<longleftrightarrow> (\<exists>p \<in> set partners. v = Str p)" for v
    by (cases v) (auto simp: is_in_def)
  have 1: "partners \<noteq> [''all''] \<and> ''partnerISO'' \<in> set (columns merged) \<longrightarrow>
      rows (partner_filter partners merged)
        = filter (\<lambda>r. \<exists>p \<in> set partners. cell_at (columns merged) r ''partnerISO'' = Str p)
            (rows merged)"
    by (simp add: partner_filter_def get_partner_iso_list_def filter_isin_def isin)
  have 2: "partners = [''all''] \<or> ''partnerISO'' \<notin> set (columns merged) \<longrightarrow>
        partner_filter partners merged = merged"
    by (auto simp: partner_filter_def get_partner_iso_list_def)
  have 3: "fetch_un_comtrade_data api jn completed reporters partners years cm = Inr out \<longrightarrow>
        out = empty_frame
        \<or> (\<exists>per_year all_years.
              traverse (year_table api jn completed (get_reporter_codes reporters cm)) years
                = Inr per_year
              \<and> pd_concat (concat per_year) = Inr all_years
              \<and> out = partner_filter partners all_years)"
    by (auto simp: fetch_un_comtrade_data_def Let_def split: sum.splits if_splits)
  from 1 2 3 show ?thesis by simp
qed

theorem partner_filter_retains_witness:
  "[''THA'', ''USA''] \<noteq> [''all''] \<and> ''partnerISO'' \<in> set (columns example_trade)
   \<and> rows (partner_filter [''THA'', ''USA''] example_trade) = [[Str ''USA'', Str ''THA'', Str ''01'']]
   \<and> partner_filter [''all''] example_trade = example_trade"
  using partner_filter_retains [of "[''THA'', ''USA'']" example_trade example_api
          example_json_normalize example_completed "[''THA'', ''USA'']" "[2015]"
          example_country_map empty_frame]
        partner_filter_retains [of "[''all'']" example_trade example_api
          example_json_normalize example_completed "[''THA'', ''USA'']" "[2015]"
          example_country_map empty_frame]
  by (simp add: example_trade_def cell_at_def)

text \<open>
  The claim as first stated fails on a table without a partnerISO column: with the partner
  list [THA] the row stays although it has no partner in the list.
\<close>

theorem partner_filter_counterexample:
  "[''THA''] \<noteq> [''all'']
   \<and> \<not> is_in [''THA''] (cell_at (columns example_no_partner) [Str ''01''] ''partnerISO'')
   \<and> [Str ''01''] \<in> set (rows (partner_filter [''THA''] example_no_partner))"
  by (simp add: example_no_partner_def partner_filter_def get_partner_iso_list_def
        is_in_def cell_at_def)




section \<open>Pairwise normalizer\<close>


lemma traverse_Inr_nth:
  "traverse f xs = Inr ys \<Longrightarrow> i < length xs \<Longrightarrow> f (xs ! i) = Inr (ys ! i)"
proof (induction xs arbitrary: ys i)
  case Nil
  then show ?case by simp
next
  case (Cons x xs)
  then show ?case by (cases i) (auto split: sum.splits)
qed



lemma cell_at_append_new:
  assumes "length r = length cols"
  shows "cell_at (cols @ [l]) (r @ [v]) c
           = (if c \<in> set cols then cell_at cols r c else if c = l then v else NaN)"
proof -
  have z: "zip (cols @ [l]) (r @ [v]) = zip cols r @ [(l, v)]"
    using assms by simp
  show ?thesis
  proof (cases "c \<in> set cols")
    case True
    then obtain x where "map_of (zip cols r) c = Some x"
      using assms by (metis map_of_zip_is_Some)
    then show ?thesis using True by (auto simp: cell_at_def z map_add_def)
  next
    case False
    then have "map_of (zip cols r) c = None"
      using assms by (metis map_of_zip_is_None)
    then show ?thesis using False by (auto simp: cell_at_def z map_add_def)
  qed
qed

lemma wf_frame_iff: "wf_frame df \<longleftrightarrow> (\<forall>r \<in> set (rows df). length r = length (columns df))"
  by (simp add: wf_frame_def list_all_iff)


lemma set_column_rows:
  assumes "wf_frame df" and "length vals = length (rows df)"
  shows "wf_frame (set_column df l vals)"
    and "length (rows (set_column df l vals)) = length (rows df)"
    and "set (columns (set_column df l vals)) = insert l (set (columns df))"
proof -
  show "wf_frame (set_column df l vals)"
    using assms(1)
    by (auto simp: wf_frame_iff set_column_def dest!: set_zip_leftD)
  show "length (rows (set_column df l vals)) = length (rows df)"
    using assms(2) by (simp add: set_column_def)
  show "set (columns (set_column df l vals)) = insert l (set (columns df))"
    by (auto simp: set_column_def)
qed


lemma to_numeric_cell_idem [simp]:
  "to_numeric_cell tn (to_numeric_cell tn v) = to_numeric_cell tn v"
  by (cases v) (auto split: option.splits)

lemma series_Inr:
  "series df c e = Inr vals \<Longrightarrow> vals = column df c \<and> count_list (columns df) c = 1 \<and> c \<in> set (columns df)"
  by (auto simp: series_def split: if_splits)














lemma text_cell_cell_at:
  "(\<And>v. v \<in> set r \<Longrightarrow> text_cell v) \<Longrightarrow> text_cell (cell_at cols r c)"
  by (auto simp: cell_at_def split: option.splits dest!: map_of_SomeD set_zip_rightD)

lemma text_cell_read_csv:
  "r \<in> set (rows (read_csv file)) \<Longrightarrow> v \<in> set r \<Longrightarrow> text_cell v"
proof -
  assume "r \<in> set (rows (read_csv file))" "v \<in> set r"
  then obtain t where "v = cell_of_text t" by (auto simp: read_csv_def)
  then show ?thesis by (cases t) auto
qed

lemma key_a_text:
  "text_cell x \<Longrightarrow> text_cell y \<Longrightarrow> \<exists>k. key_a x y = Inr k \<and> text_cell k"
  by (cases x; cases y) (auto simp: key_a_def)

lemma key_b_text:
  "text_cell x \<Longrightarrow> text_cell y \<Longrightarrow> \<exists>k. key_b x y = Inr k \<and> text_cell k"
  by (cases x; cases y) (auto simp: key_b_def)

lemma traverse_total:
  "(\<And>x. x \<in> set xs \<Longrightarrow> \<exists>y. f x = Inr y \<and> Q y)
     \<Longrightarrow> \<exists>ys. traverse f xs = Inr ys \<and> (\<forall>y \<in> set ys. Q y)"
proof (induction xs)
  case Nil
  then show ?case by simp
next
  case (Cons x xs)
  then obtain y where y: "f x = Inr y" "Q y" by auto
  from Cons obtain ys where "traverse f xs = Inr ys" "\<forall>y \<in> set ys. Q y" by auto
  with y show ?case by simp
qed

lemma set_column_text:
  assumes "\<And>r v. r \<in> set (rows df) \<Longrightarrow> v \<in> set r \<Longrightarrow> text_cell v"
    and "\<And>v. v \<in> set vals \<Longrightarrow> text_cell v"
    and "r \<in> set (rows (set_column df l vals))" and "v \<in> set r"
  shows "text_cell v"
proof (cases "l \<in> set (columns df)")
  case True
  with assms(3) obtain r0 x where rx: "(r0, x) \<in> set (zip (rows df) vals)"
    and r: "r = map (\<lambda>(l', y). if l' = l then x else y) (zip (columns df) r0)"
    by (auto simp: set_column_def)
  from rx have "r0 \<in> set (rows df)" "x \<in> set vals"
    by (auto dest: set_zip_leftD set_zip_rightD)
  with assms(1,2,4) r show ?thesis
    by (auto split: if_splits dest!: set_zip_rightD)
next
  case False
  with assms(3) obtain r0 x where rx: "(r0, x) \<in> set (zip (rows df) vals)"
    and r: "r = r0 @ [x]"
    by (auto simp: set_column_def)
  from rx have "r0 \<in> set (rows df)" "x \<in> set vals"
    by (auto dest: set_zip_leftD set_zip_rightD)
  with assms(1,2,4) r show ?thesis by auto
qed

lemma count_list_set_column:
  "c \<noteq> l \<Longrightarrow> count_list (columns (set_column df l vals)) c = count_list (columns df) c"
  by (simp add: set_column_def)

lemma add_keys_total:
  assumes cnt_o: "count_list (columns df) ''iso3_o'' = 1"
    and cnt_d: "count_list (columns df) ''iso3_d'' = 1"
    and cells_text: "\<And>r v. r \<in> set (rows df) \<Longrightarrow> v \<in> set r \<Longrightarrow> text_cell v"
  shows "\<exists>df3. add_keys df = Inr df3"
proof -
  have mem: "''iso3_o'' \<in> set (columns df)" "''iso3_d'' \<in> set (columns df)"
    using cnt_o cnt_d by (metis count_list_0_iff zero_neq_one)+
  have s: "series df ''iso3_o'' ValueError = Inr (column df ''iso3_o'')"
    "series df ''iso3_d'' ValueError = Inr (column df ''iso3_d'')"
    using cnt_o cnt_d mem by (simp_all add: series_def)
  have col_txt: "text_cell v" if "v \<in> set (column df c)" for v c
    using that cells_text by (auto simp: column_def intro!: text_cell_cell_at)
  have "\<exists>kas. traverse (\<lambda>(x, y). key_a x y) (zip (column df ''iso3_o'') (column df ''iso3_d''))
            = Inr kas \<and> (\<forall>k \<in> set kas. text_cell k)"
  proof (rule traverse_total)
    fix p assume p: "p \<in> set (zip (column df ''iso3_o'') (column df ''iso3_d''))"
    obtain x y where xy: "p = (x, y)" by (cases p)
    have "text_cell x" "text_cell y"
      using p xy col_txt by (auto dest: set_zip_leftD set_zip_rightD)
    then show "\<exists>k. (case p of (x, y) \<Rightarrow> key_a x y) = Inr k \<and> text_cell k"
      using key_a_text xy by simp
  qed
  then obtain kas where kas: "traverse (\<lambda>(x, y). key_a x y)
        (zip (column df ''iso3_o'') (column df ''iso3_d'')) = Inr kas"
    and kas_txt: "\<And>k. k \<in> set kas \<Longrightarrow> text_cell k" by blast
  define df' where "df' = set_column df ''key_a'' kas"
  have cnt': "count_list (columns df') ''iso3_o'' = 1" "count_list (columns df') ''iso3_d'' = 1"
    using cnt_o cnt_d by (simp_all add: df'_def count_list_set_column)
  have mem': "''iso3_o'' \<in> set (columns df')" "''iso3_d'' \<in> set (columns df')"
    using cnt' by (metis count_list_0_iff zero_neq_one)+
  have s': "series df' ''iso3_o'' ValueError = Inr (column df' ''iso3_o'')"
    "series df' ''iso3_d'' ValueError = Inr (column df' ''iso3_d'')"
    using cnt' mem' by (simp_all add: series_def)
  have cells_text': "text_cell v" if "r \<in> set (rows df')" "v \<in> set r" for r v
    by (rule set_column_text [where df = df and vals = kas and l = "''key_a''" and r = r])
       (use that cells_text kas_txt in \<open>auto simp: df'_def\<close>)
  have col_txt': "text_cell v" if "v \<in> set (column df' c)" for v c
    using that cells_text' by (auto simp: column_def intro!: text_cell_cell_at)
  have "\<exists>kbs. traverse (\<lambda>(x, y). key_b x y) (zip (column df' ''iso3_o'') (column df' ''iso3_d''))
            = Inr kbs \<and> (\<forall>k \<in> set kbs. text_cell k)"
  proof (rule traverse_total)
    fix p assume p: "p \<in> set (zip (column df' ''iso3_o'') (column df' ''iso3_d''))"
    obtain x y where xy: "p = (x, y)" by (cases p)
    have "text_cell x" "text_cell y"
      using p xy col_txt' by (auto dest: set_zip_leftD set_zip_rightD)
    then show "\<exists>k. (case p of (x, y) \<Rightarrow> key_b x y) = Inr k \<and> text_cell k"
      using key_b_text xy by simp
  qed
  then obtain kbs where kbs: "traverse (\<lambda>(x, y). key_b x y)
        (zip (column df' ''iso3_o'') (column df' ''iso3_d'')) = Inr kbs" by blast
  show ?thesis
    by (simp add: add_keys_def s kas Let_def df'_def [symmetric] s' kbs)
qed

lemma prepare_unfold:
  assumes "df0 = read_csv file" and "keep = cols_to_keep vars df0"
    and "existing = filter (\<lambda>c. c \<in> set (columns df0)) ([''iso3_o'', ''iso3_d''] @ keep)"
  shows "prepare_cepii_data tn vars (Some (Inr file)) =
     (if \<not> (''iso3_o'' \<in> set existing \<and> ''iso3_d'' \<in> set existing) then Inr empty_frame
      else
      (case for_each (coerce_column tn) (filter (\<lambda>c. c \<in> set num_cols_all) existing)
              (select_columns df0 existing) of Inl e \<Rightarrow> Inl e
      | Inr df2 \<Rightarrow>
       (case add_keys df2 of Inl e \<Rightarrow> Inl e
        | Inr df3 \<Rightarrow>
          if first_seen (filter (\<lambda>c. c \<in> set (columns df3)) keep) = [] then Inr empty_frame
          else
           (case groupby_agg df3 ''key_a'' ''key_b''
                   (first_seen (filter (\<lambda>c. c \<in> set (columns df3)) keep)) of Inl e \<Rightarrow> Inl e
            | Inr collapsed \<Rightarrow>
              (case traverse (\<lambda>r. dash_join (cell_at (columns collapsed) r ''key_a'')
                                             (cell_at (columns collapsed) r ''key_b''))
                       (rows collapsed) of Inl e \<Rightarrow> Inl e
               | Inr ks \<Rightarrow> Inr (select_columns (set_column collapsed ''cepii_key'' ks)
                                     ([''cepii_key''] @ keep)))))))"
  unfolding prepare_cepii_data_def Let_def assms
  by simp

lemma iso_not_numeric:
  "''iso3_o'' \<notin> set num_cols_all" "''iso3_d'' \<notin> set num_cols_all"
  by (simp_all add: num_cols_all_def)

lemma prepare_missing_identity:
  assumes "''iso3_o'' \<notin> set (csv_columns file) \<or> ''iso3_d'' \<notin> set (csv_columns file)"
  shows "prepare_cepii_data tn vars (Some (Inr file)) = Inr empty_frame"
proof -
  define df0 where "df0 = read_csv file"
  define keep where "keep = cols_to_keep vars df0"
  define existing where
    "existing = filter (\<lambda>c. c \<in> set (columns df0)) ([''iso3_o'', ''iso3_d''] @ keep)"
  have "columns df0 = csv_columns file" by (simp add: df0_def read_csv_def)
  then have "\<not> (''iso3_o'' \<in> set existing \<and> ''iso3_d'' \<in> set existing)"
    using assms by (auto simp: existing_def)
  then show ?thesis
    by (simp add: prepare_unfold [OF df0_def keep_def existing_def])
qed

lemma prepare_no_attribute:
  assumes "cols_to_keep vars (read_csv file) = []"
  shows "prepare_cepii_data tn vars (Some (Inr file)) = Inr empty_frame"
proof (cases "''iso3_o'' \<in> set (csv_columns file) \<and> ''iso3_d'' \<in> set (csv_columns file)")
  case False
  then show ?thesis by (simp add: prepare_missing_identity)
next
  case True
  define df0 where "df0 = read_csv file"
  define keep where "keep = cols_to_keep vars df0"
  define existing where
    "existing = filter (\<lambda>c. c \<in> set (columns df0)) ([''iso3_o'', ''iso3_d''] @ keep)"
  have cols0: "columns df0 = csv_columns file" by (simp add: df0_def read_csv_def)
  have keep: "keep = []" using assms by (simp add: keep_def df0_def)
  have ex: "existing = [''iso3_o'', ''iso3_d'']"
    using True by (simp add: existing_def keep cols0)
  define df1 where "df1 = select_columns df0 existing"
  have num: "filter (\<lambda>c. c \<in> set num_cols_all) existing = []"
    by (simp add: ex iso_not_numeric)
  have "\<exists>df3. add_keys df1 = Inr df3"
  proof (rule add_keys_total)
    show "count_list (columns df1) ''iso3_o'' = 1" "count_list (columns df1) ''iso3_d'' = 1"
      by (simp_all add: df1_def select_columns_def ex)
    fix r v assume "r \<in> set (rows df1)" "v \<in> set r"
    then obtain r0 c where "r0 \<in> set (rows df0)" "v = cell_at (columns df0) r0 c"
      by (auto simp: df1_def select_columns_def realign_def)
    then show "text_cell v"
      using text_cell_read_csv [of r0 "file"] by (auto simp: df0_def intro!: text_cell_cell_at)
  qed
  then obtain df3 where df3: "add_keys df1 = Inr df3" by blast
  have fs: "first_seen (filter (\<lambda>c. c \<in> set (columns df3)) keep) = []"
    by (simp add: keep first_seen_def)
  show ?thesis
    unfolding prepare_unfold [OF df0_def keep_def existing_def] num df1_def [symmetric]
    by (simp add: ex df3 fs)
qed

text \<open>
  Claim C6. \<^verbatim>\<open>prepare_cepii_data\<close> returns the empty table, and does not raise, when the
  file is absent, when reading it raises, when iso3_o or iso3_d is not a column of it, and
  when no requested attribute (no known attribute, for the wildcard) is a column of it: in the
  last case the result is the empty table and not a table of keys.
\<close>

theorem prepare_cepii_data_fails_soft:
  "prepare_cepii_data tn vars None = Inr empty_frame
   \<and> prepare_cepii_data tn vars (Some (Inl e)) = Inr empty_frame
   \<and> (''iso3_o'' \<notin> set (csv_columns file) \<or> ''iso3_d'' \<notin> set (csv_columns file) \<longrightarrow>
        prepare_cepii_data tn vars (Some (Inr file)) = Inr empty_frame)
   \<and> ((\<forall>c \<in> set (if vars = [''all''] then num_cols_all else vars). c \<notin> set (csv_columns file)) \<longrightarrow>
        prepare_cepii_data tn vars (Some (Inr file)) = Inr empty_frame)"
proof -
  have "cols_to_keep vars (read_csv file) = []"
    if "\<forall>c \<in> set (if vars = [''all''] then num_cols_all else vars). c \<notin> set (csv_columns file)"
    using that
    by (auto simp: cols_to_keep_def read_csv_def num_cols_all_def filter_empty_conv
             split: if_splits)
  then show ?thesis
    by (simp add: prepare_missing_identity prepare_no_attribute)
       (simp add: prepare_cepii_data_def)
qed







theorem prepare_cepii_data_fails_soft_witness:
  "''iso3_d'' \<notin> set (csv_columns example_cepii_no_destination)
   \<and> prepare_cepii_data example_to_numeric [''contig'']
        (Some (Inr example_cepii_no_destination)) = Inr empty_frame
   \<and> ''zzz'' \<notin> set (csv_columns example_cepii)
   \<and> prepare_cepii_data example_to_numeric [''zzz''] (Some (Inr example_cepii)) = Inr empty_frame"
proof -
  have a: "''iso3_d'' \<notin> set (csv_columns example_cepii_no_destination)"
    by (simp add: example_cepii_no_destination_def)
  have b: "\<forall>c \<in> set (if [''zzz''] = [''all''] then num_cols_all else [''zzz'']).
             c \<notin> set (csv_columns example_cepii)"
    by (simp add: example_cepii_def)
  from prepare_cepii_data_fails_soft
         [of example_to_numeric "[''contig'']" KeyError example_cepii_no_destination] a
  have 1: "prepare_cepii_data example_to_numeric [''contig'']
        (Some (Inr example_cepii_no_destination)) = Inr empty_frame"
    by blast
  from prepare_cepii_data_fails_soft
         [of example_to_numeric "[''zzz'']" KeyError example_cepii] b
  have 2: "prepare_cepii_data example_to_numeric [''zzz''] (Some (Inr example_cepii))
      = Inr empty_frame"
    by blast
  from a b 1 2 show ?thesis by simp
qed



section \<open>Merge engine\<close>

text \<open>
  Claim C9. For a non-empty trade table that has neither a period nor a year column,
  \<^verbatim>\<open>merge_datasets\<close> raises \<^verbatim>\<open>KeyError\<close>: after the optional rename the year
  coercion reads the year column without a check.
\<close>

theorem merge_datasets_needs_year:
  assumes "\<not> pd_empty df_trade"
    and "''period'' \<notin> set (columns df_trade)" and "''year'' \<notin> set (columns df_trade)"
  shows "merge_datasets to_numeric df_wb df_trade df_cepii = Inl KeyError"
  using assms by (simp add: merge_datasets_def coerce_year_def series_def)

theorem merge_datasets_needs_year_witness:
  "\<not> pd_empty example_no_year
   \<and> ''period'' \<notin> set (columns example_no_year) \<and> ''year'' \<notin> set (columns example_no_year)
   \<and> merge_datasets example_to_numeric example_wb example_no_year example_pairs = Inl KeyError"
proof -
  have h: "\<not> pd_empty example_no_year" "''period'' \<notin> set (columns example_no_year)"
    "''year'' \<notin> set (columns example_no_year)"
    by (simp_all add: example_no_year_def pd_empty_def)
  from merge_datasets_needs_year [OF h] h show ?thesis by simp
qed

subsection \<open>Left joins on unique keys\<close>

lemma filter_unique_key:
  "distinct (map f xs) \<Longrightarrow>
     filter (\<lambda>x. f x = k) xs = (case find (\<lambda>x. f x = k) xs of None \<Rightarrow> [] | Some x \<Rightarrow> [x])"
proof (induction xs)
  case Nil
  then show ?case by simp
next
  case (Cons x xs)
  show ?case
  proof (cases "f x = k")
    case True
    then have "k \<notin> f ` set xs" using Cons.prems by auto
    then have "filter (\<lambda>x. f x = k) xs = []" by (auto simp: filter_empty_conv)
    with True show ?thesis by simp
  next
    case False
    with Cons show ?thesis by simp
  qed
qed

lemma length_joined_cells:
  "length r = length cols \<Longrightarrow>
     length (joined_cells shared cols r) = length (filter (\<lambda>c. c \<notin> set shared) cols)"
proof (induction cols arbitrary: r)
  case Nil
  then show ?case by (simp add: joined_cells_def)
next
  case (Cons c cols)
  then obtain v r' where r: "r = v # r'" "length r' = length cols" by (cases r) auto
  with Cons.IH [of r'] show ?case by (simp add: joined_cells_def)
qed

lemma merge_left_Inr:
  assumes "merge_left L R lon ron = Inr M"
  shows "columns M =
           map (\<lambda>c. if c \<notin> set (shared_keys lon ron)
                        \<and> c \<in> set (filter (\<lambda>c. c \<notin> set (shared_keys lon ron)) (columns R))
                     then c @ ''_x'' else c) (columns L)
           @ map (\<lambda>c. if c \<in> set (columns L) then c @ ''_y'' else c)
                 (filter (\<lambda>c. c \<notin> set (shared_keys lon ron)) (columns R))"
    and "rows M = concat (map (\<lambda>l.
            (case filter (\<lambda>r. key_of (columns R) ron r = key_of (columns L) lon l) (rows R) of
               [] \<Rightarrow> [l @ replicate (length (filter (\<lambda>c. c \<notin> set (shared_keys lon ron)) (columns R))) NaN]
             | ms \<Rightarrow> map (\<lambda>r. l @ joined_cells (shared_keys lon ron) (columns R) r) ms))
            (rows L))"
    and "list_all (\<lambda>k. count_list (columns L) k = 1) lon"
    and "list_all (\<lambda>k. count_list (columns R) k = 1) ron"
  using assms by (auto simp: merge_left_def Let_def split: if_splits)

lemma merge_left_rows:
  assumes ok: "merge_left L R lon ron = Inr M"
    and uniq: "distinct (map (key_of (columns R) ron) (rows R))"
  shows "rows M = map (\<lambda>l. l @
            (case find (\<lambda>r. key_of (columns R) ron r = key_of (columns L) lon l) (rows R) of
               None \<Rightarrow> replicate (length (filter (\<lambda>c. c \<notin> set (shared_keys lon ron)) (columns R))) NaN
             | Some r \<Rightarrow> joined_cells (shared_keys lon ron) (columns R) r))
          (rows L)"
proof -
  have one: "(case filter (\<lambda>r. key_of (columns R) ron r = k) (rows R) of
               [] \<Rightarrow> [l @ e]
             | ms \<Rightarrow> map (\<lambda>r. l @ g r) ms)
        = [l @ (case find (\<lambda>r. key_of (columns R) ron r = k) (rows R) of
                  None \<Rightarrow> e | Some r \<Rightarrow> g r)]" for k l e g
    unfolding filter_unique_key [OF uniq] by (simp split: option.splits)
  show ?thesis
    unfolding merge_left_Inr(2) [OF ok] one by (induction "rows L") auto
qed

lemma cell_at_unique:
  "count_list cols c = 1 \<Longrightarrow> (c, x) \<in> set (zip cols r) \<Longrightarrow> cell_at cols r c = x"
proof (induction cols arbitrary: r)
  case Nil
  then show ?case by simp
next
  case (Cons l cols)
  then obtain v r' where r: "r = v # r'" by (cases r) auto
  show ?case
  proof (cases "l = c")
    case True
    then have "c \<notin> set cols" using Cons.prems(1) by (simp add: count_list_0_iff)
    then have "(c, x) \<notin> set (zip cols r')" by (auto dest: set_zip_leftD)
    with Cons.prems(2) r True show ?thesis by (simp add: cell_at_def)
  next
    case False
    with Cons r show ?thesis by (simp add: cell_at_def)
  qed
qed

lemma astype_Int64_Inr: "astype_Int64 v = Inr v' \<Longrightarrow> v' = v"
  by (cases v) (auto split: if_splits)

lemma zip_rows_map: "zip xs (map f xs) = map (\<lambda>x. (x, f x)) xs"
  by (induction xs) auto

lemma traverse_Inr_eq_map:
  "traverse f xs = Inr ys \<Longrightarrow> (\<And>x y. f x = Inr y \<Longrightarrow> y = g x) \<Longrightarrow> ys = map g xs"
  by (induction xs arbitrary: ys) (auto split: sum.splits)

lemma coerce_year_spec:
  assumes ok: "coerce_year tn df = Inr t" and wf: "wf_frame df"
  shows "columns t = columns df"
    and "rows t = map (\<lambda>r. map (\<lambda>(c, v). if c = ''year'' then to_numeric_cell tn v else v)
                              (zip (columns df) r)) (rows df)"
    and "count_list (columns df) ''year'' = 1"
proof -
  from ok obtain ys' where
    s: "series df ''year'' TypeError = Inr (column df ''year'')"
    and tr: "traverse (\<lambda>v. astype_Int64 (to_numeric_cell tn v)) (column df ''year'') = Inr ys'"
    and t: "t = set_column df ''year'' ys'"
    unfolding coerce_year_def by (auto split: sum.splits dest: series_Inr)
  from s have cnt: "count_list (columns df) ''year'' = 1" and mem: "''year'' \<in> set (columns df)"
    by (auto dest: series_Inr)
  show "count_list (columns df) ''year'' = 1" by (rule cnt)
  show "columns t = columns df" using mem by (simp add: t set_column_def)
  have ys': "ys' = map (\<lambda>r. to_numeric_cell tn (cell_at (columns df) r ''year'')) (rows df)"
    using traverse_Inr_eq_map [OF tr, of "to_numeric_cell tn"]
    by (auto simp: column_def o_def dest: astype_Int64_Inr)
  have row: "map (\<lambda>(l, x). if l = ''year'' then to_numeric_cell tn (cell_at (columns df) r ''year'') else x)
                 (zip (columns df) r)
           = map (\<lambda>(c, v). if c = ''year'' then to_numeric_cell tn v else v) (zip (columns df) r)"
    for r
    by (rule map_cong) (auto dest: cell_at_unique [OF cnt])
  show "rows t = map (\<lambda>r. map (\<lambda>(c, v). if c = ''year'' then to_numeric_cell tn v else v)
                              (zip (columns df) r)) (rows df)"
    using mem by (simp add: t set_column_def ys' zip_rows_map o_def row)
qed

lemma map_of_zip_relabel_key:
  "(\<And>c'. c' \<in> set cols \<Longrightarrow> g c' = t \<longleftrightarrow> c' = c)
     \<Longrightarrow> map_of (zip (map g cols) r) t = map_of (zip cols r) c"
proof (induction cols arbitrary: r)
  case Nil
  then show ?case by simp
next
  case (Cons l cols)
  then show ?case by (cases r) auto
qed

lemma cell_at_relabel_key:
  "(\<And>c'. c' \<in> set cols \<Longrightarrow> g c' = t \<longleftrightarrow> c' = c)
     \<Longrightarrow> cell_at (map g cols) r t = cell_at cols r c"
  by (simp add: cell_at_def map_of_zip_relabel_key)

lemma cell_at_append_left:
  assumes "k \<in> set A" and "length l = length A"
  shows "cell_at (A @ B) (l @ e) k = cell_at A l k"
proof -
  obtain x where "map_of (zip A l) k = Some x"
    using assms by (metis map_of_zip_is_Some)
  then show ?thesis using assms(2) by (simp add: cell_at_def map_add_def)
qed

lemma wb_side_columns:
  "columns (wb_side s lbl df) =
     map (\<lambda>c. if c = ''countryISO'' then lbl else if c = ''Year'' then ''year'' else c @ s)
         (columns df)"
  by (simp add: wb_side_def rename_columns_def add_suffix_def)

lemma wb_side_rows: "rows (wb_side s lbl df) = rows df"
  by (simp add: wb_side_def rename_columns_def add_suffix_def)

lemma not_suffix_x:
  "c @ ''_x'' \<noteq> ''reporterISO''" "c @ ''_x'' \<noteq> ''partnerISO''" "c @ ''_x'' \<noteq> ''year''"
  "c @ ''_x'' \<noteq> ''cepii_merge_key''" "c @ ''_x'' \<noteq> ''cepii_key''"
  by (auto dest: arg_cong [where f = rev])

lemma not_suffix_y:
  "c @ ''_y'' \<noteq> ''cepii_merge_key''" "c @ ''_y'' \<noteq> ''cepii_key''"
  by (auto dest: arg_cong [where f = rev])

lemma not_suffix_side:
  "c @ ''_reporter'' \<noteq> ''reporterISO''" "c @ ''_reporter'' \<noteq> ''partnerISO''"
  "c @ ''_reporter'' \<noteq> ''year''" "c @ ''_reporter'' \<noteq> ''cepii_merge_key''"
  "c @ ''_reporter'' \<noteq> ''cepii_key''"
  "c @ ''_partner'' \<noteq> ''reporterISO''" "c @ ''_partner'' \<noteq> ''partnerISO''"
  "c @ ''_partner'' \<noteq> ''year''" "c @ ''_partner'' \<noteq> ''cepii_merge_key''"
  "c @ ''_partner'' \<noteq> ''cepii_key''"
  by (auto dest: arg_cong [where f = rev])

lemma join_step:
  assumes ok: "merge_left L R lon ron = Inr M"
    and uniq: "distinct (map (key_of (columns R) ron) (rows R))"
    and wfL: "wf_frame L" and wfR: "wf_frame R"
  shows "wf_frame M"
    and "length (rows M) = length (rows L)"
    and "\<And>i. i < length (rows L) \<Longrightarrow>
          \<exists>e. rows M ! i = rows L ! i @ e
             \<and> length e = length (filter (\<lambda>c. c \<notin> set (shared_keys lon ron)) (columns R))
             \<and> ((\<forall>r \<in> set (rows R). key_of (columns R) ron r \<noteq> key_of (columns L) lon (rows L ! i))
                 \<longrightarrow> e = replicate (length (filter (\<lambda>c. c \<notin> set (shared_keys lon ron)) (columns R))) NaN)"
proof -
  let ?n = "length (filter (\<lambda>c. c \<notin> set (shared_keys lon ron)) (columns R))"
  let ?ext = "\<lambda>l. (case find (\<lambda>r. key_of (columns R) ron r = key_of (columns L) lon l) (rows R) of
               None \<Rightarrow> replicate ?n NaN
             | Some r \<Rightarrow> joined_cells (shared_keys lon ron) (columns R) r)"
  have rows: "rows M = map (\<lambda>l. l @ ?ext l) (rows L)"
    by (rule merge_left_rows [OF ok uniq])
  have len_ext: "length (?ext l) = ?n" for l
  proof (cases "find (\<lambda>r. key_of (columns R) ron r = key_of (columns L) lon l) (rows R)")
    case None
    then show ?thesis by simp
  next
    case (Some r)
    then have "r \<in> set (rows R)" by (auto simp: find_Some_iff)
    then have "length r = length (columns R)" using wfR by (simp add: wf_frame_iff)
    then show ?thesis using Some by (simp add: length_joined_cells)
  qed
  show "length (rows M) = length (rows L)" by (simp add: rows)
  show "wf_frame M"
    using wfL len_ext by (auto simp: wf_frame_iff rows merge_left_Inr(1) [OF ok])
  show "\<exists>e. rows M ! i = rows L ! i @ e \<and> length e = ?n
             \<and> ((\<forall>r \<in> set (rows R). key_of (columns R) ron r \<noteq> key_of (columns L) lon (rows L ! i))
                 \<longrightarrow> e = replicate ?n NaN)" if "i < length (rows L)" for i
  proof (intro exI [of _ "?ext (rows L ! i)"] conjI impI)
    show "rows M ! i = rows L ! i @ ?ext (rows L ! i)" using that by (simp add: rows)
    show "length (?ext (rows L ! i)) = ?n" by (rule len_ext)
    assume "\<forall>r \<in> set (rows R). key_of (columns R) ron r \<noteq> key_of (columns L) lon (rows L ! i)"
    then have "find (\<lambda>r. key_of (columns R) ron r = key_of (columns L) lon (rows L ! i)) (rows R) = None"
      by (simp add: find_None_iff)
    then show "?ext (rows L ! i) = replicate ?n NaN" by simp
  qed
qed

lemma merge_left_cell_left:
  assumes ok: "merge_left L R lon ron = Inr M"
    and k: "k \<in> set (columns L)" and len: "length l = length (columns L)"
    and keep: "k \<in> set (shared_keys lon ron) \<or> k \<notin> set (columns R)"
    and nx: "\<And>c. c @ ''_x'' \<noteq> k"
  shows "cell_at (columns M) (l @ e) k = cell_at (columns L) l k"
proof -
  let ?sfx = "\<lambda>c. if c \<notin> set (shared_keys lon ron)
                        \<and> c \<in> set (filter (\<lambda>c. c \<notin> set (shared_keys lon ron)) (columns R))
                     then c @ ''_x'' else c"
  have sk: "?sfx k = k" using keep by auto
  have inj: "?sfx c' = k \<longleftrightarrow> c' = k" for c'
    using sk nx by (auto split: if_splits)
  have mem: "k \<in> set (map ?sfx (columns L))"
  proof -
    have "?sfx k \<in> ?sfx ` set (columns L)" using k by (rule imageI)
    then show ?thesis unfolding sk by simp
  qed
  have "cell_at (columns M) (l @ e) k = cell_at (map ?sfx (columns L)) l k"
    unfolding merge_left_Inr(1) [OF ok]
    by (rule cell_at_append_left [OF mem]) (simp add: len)
  also have "\<dots> = cell_at (columns L) l k"
    by (rule cell_at_relabel_key) (rule inj)
  finally show ?thesis .
qed

lemma wb_side_key:
  assumes "\<And>c. c @ s \<noteq> lbl" and "\<And>c. c @ s \<noteq> ''year''" and "lbl \<noteq> ''year''"
  shows "key_of (columns (wb_side s lbl df)) [lbl, ''year''] w
       = key_of (columns df) [''countryISO'', ''Year''] w"
proof -
  let ?g = "\<lambda>c. if c = ''countryISO'' then lbl else if c = ''Year'' then ''year'' else c @ s"
  have 1: "cell_at (map ?g (columns df)) w lbl = cell_at (columns df) w ''countryISO''"
    by (rule cell_at_relabel_key) (use assms in auto)
  have 2: "cell_at (map ?g (columns df)) w ''year'' = cell_at (columns df) w ''Year''"
    by (rule cell_at_relabel_key) (use assms in auto)
  show ?thesis by (simp add: key_of_def wb_side_columns 1 2)
qed

lemma wb_side_labels:
  "k \<in> set (columns (wb_side s lbl df)) \<Longrightarrow> k = lbl \<or> k = ''year'' \<or> (\<exists>c. k = c @ s)"
  by (auto simp: wb_side_columns split: if_splits)

lemma wb_side_joined_count:
  assumes "\<And>c. c @ s \<noteq> lbl" and "\<And>c. c @ s \<noteq> ''year''"
  shows "length (filter (\<lambda>c. c \<notin> set [lbl, ''year'']) (columns (wb_side s lbl df)))
       = length (filter (\<lambda>c. c \<notin> set [''countryISO'', ''Year'']) (columns df))"
proof -
  have "filter (\<lambda>c. c \<notin> set [lbl, ''year''])
          (map (\<lambda>c. if c = ''countryISO'' then lbl else if c = ''Year'' then ''year'' else c @ s) cols)
      = map (\<lambda>c. if c = ''countryISO'' then lbl else if c = ''Year'' then ''year'' else c @ s)
          (filter (\<lambda>c. c \<notin> set [''countryISO'', ''Year'']) cols)" for cols
    using assms by (induction cols) auto
  then show ?thesis by (simp add: wb_side_columns)
qed

lemma wf_wb_side: "wf_frame df \<Longrightarrow> wf_frame (wb_side s lbl df)"
  by (simp add: wf_frame_iff wb_side_columns wb_side_rows)

lemma shared_keys_same: "shared_keys xs xs = xs"
  by (induction xs) (auto simp: shared_keys_def)

lemma merge_left_labels:
  assumes "merge_left L R lon ron = Inr M" and "k \<in> set (columns M)"
  shows "k \<in> set (columns L) \<or> (k \<in> set (columns R) \<and> k \<notin> set (shared_keys lon ron))
         \<or> (\<exists>c. k = c @ ''_x'') \<or> (\<exists>c. k = c @ ''_y'')"
  using assms(2) unfolding merge_left_Inr(1) [OF assms(1)]
  by (auto split: if_splits)

lemma joined_cells_append:
  "length ra = length A \<Longrightarrow>
     joined_cells labels (A @ B) (ra @ rb) = joined_cells labels A ra @ joined_cells labels B rb"
  by (simp add: joined_cells_def)

lemma joined_cells_none:
  "(\<And>c. c \<in> set A \<Longrightarrow> c \<notin> set labels) \<Longrightarrow> length r = length A \<Longrightarrow>
     joined_cells labels A r = r"
proof (induction A arbitrary: r)
  case Nil
  then show ?case by (simp add: joined_cells_def)
next
  case (Cons a A)
  then obtain v r' where r: "r = v # r'" "length r' = length A" by (cases r) auto
  have "joined_cells labels A r' = r'" using Cons r by simp
  then show ?case using Cons.prems(1) [of a] r by (simp add: joined_cells_def)
qed

lemma set_joined_cells: "set (joined_cells labels cols r) \<subseteq> set r"
  by (auto simp: joined_cells_def dest: set_zip_rightD)

lemma not_suffix_y_key:
  "c @ ''_y'' \<noteq> ''reporterISO''" "c @ ''_y'' \<noteq> ''partnerISO''" "c @ ''_y'' \<noteq> ''year''"
  by (auto dest: arg_cong [where f = rev])

lemma count_one_mem: "count_list xs x = 1 \<Longrightarrow> x \<in> set xs"
  by (metis count_list_0_iff zero_neq_one)

lemma cell_at_map_other:
  "\<not> P k \<Longrightarrow>
     cell_at cols (map (\<lambda>(c, v). if P c then f v else v) (zip cols r)) k = cell_at cols r k"
proof (induction cols arbitrary: r)
  case Nil
  then show ?case by (simp add: cell_at_def)
next
  case (Cons l cols)
  then show ?case by (cases r) (auto simp: cell_at_def)
qed

lemma cell_at_map_at:
  "f NaN = NaN \<Longrightarrow>
     cell_at cols (map (\<lambda>(c, v). if c = k then f v else v) (zip cols r)) k
       = f (cell_at cols r k)"
proof (induction cols arbitrary: r)
  case Nil
  then show ?case by (simp add: cell_at_def)
next
  case (Cons l cols)
  then show ?case by (cases r) (auto simp: cell_at_def)
qed

lemma merge_left_length:
  assumes "merge_left L R lon ron = Inr M"
    and "distinct (map (key_of (columns R) ron) (rows R))"
  shows "length (rows M) = length (rows L)"
  by (simp add: merge_left_rows [OF assms])

lemma merge_left_keeps_label:
  assumes ok: "merge_left L R lon ron = Inr M"
    and k: "k \<in> set (columns L)"
    and keep: "k \<in> set (shared_keys lon ron) \<or> k \<notin> set (columns R)"
  shows "k \<in> set (columns M)"
proof -
  let ?sfx = "\<lambda>c. if c \<notin> set (shared_keys lon ron)
                        \<and> c \<in> set (filter (\<lambda>c. c \<notin> set (shared_keys lon ron)) (columns R))
                     then c @ ''_x'' else c"
  have sk: "?sfx k = k" using keep by auto
  have "?sfx k \<in> ?sfx ` set (columns L)" using k by (rule imageI)
  then have "k \<in> set (map ?sfx (columns L))" unfolding sk by simp
  then show ?thesis unfolding merge_left_Inr(1) [OF ok] by simp
qed

lemma trade_year:
  assumes ok: "coerce_year tn (if ''period'' \<in> set (columns df)
                 then rename_columns [(''period'', ''year'')] df else df) = Inr t"
    and wf: "wf_frame df"
  shows "columns t = map (\<lambda>c. if c = ''period'' then ''year'' else c) (columns df)"
    and "rows t = map (\<lambda>r. map (\<lambda>(c, v). if c = ''year'' then to_numeric_cell tn v else v)
                    (zip (map (\<lambda>c. if c = ''period'' then ''year'' else c) (columns df)) r))
                  (rows df)"
    and "wf_frame t"
proof -
  let ?g = "\<lambda>c. if c = ''period'' then ''year'' else c"
  define t0 where "t0 = (if ''period'' \<in> set (columns df)
                 then rename_columns [(''period'', ''year'')] df else df)"
  have same: "map ?g (columns df) = columns df" if "''period'' \<notin> set (columns df)"
    using that by (induction "columns df") (auto intro: map_idI)
  have c0: "columns t0 = map ?g (columns df)"
  proof (cases "''period'' \<in> set (columns df)")
    case True
    have "(\<lambda>c. case map_of [(''period'', ''year'')] c of None \<Rightarrow> c | Some c' \<Rightarrow> c') = ?g"
      by (rule ext) simp
    then show ?thesis using True by (simp add: t0_def rename_columns_def)
  next
    case False
    then show ?thesis by (simp add: t0_def same)
  qed
  have r0: "rows t0 = rows df" by (simp add: t0_def rename_columns_def)
  have wf0: "wf_frame t0" using wf by (simp add: wf_frame_iff c0 r0)
  have ok0: "coerce_year tn t0 = Inr t" using ok by (simp add: t0_def)
  show cols: "columns t = map ?g (columns df)"
    using coerce_year_spec(1) [OF ok0 wf0] by (simp add: c0)
  show rws: "rows t = map (\<lambda>r. map (\<lambda>(c, v). if c = ''year'' then to_numeric_cell tn v else v)
                    (zip (map ?g (columns df)) r)) (rows df)"
    using coerce_year_spec(2) [OF ok0 wf0] by (simp add: c0 r0)
  show "wf_frame t"
    using wf by (auto simp: wf_frame_iff cols rws)
qed

lemma wb_join:
  assumes ok: "merge_left L (wb_side s lbl df_wb) [lbl, ''year''] [lbl, ''year''] = Inr M"
    and uniq: "distinct (map (key_of (columns df_wb) [''countryISO'', ''Year'']) (rows df_wb))"
    and wfL: "wf_frame L" and wfW: "wf_frame df_wb"
    and s1: "\<And>c. c @ s \<noteq> lbl" and s2: "\<And>c. c @ s \<noteq> ''year''" and s3: "lbl \<noteq> ''year''"
  shows "wf_frame M"
    and "\<And>i. i < length (rows L) \<Longrightarrow>
          \<exists>e. rows M ! i = rows L ! i @ e
             \<and> length e = length (filter (\<lambda>c. c \<notin> set [''countryISO'', ''Year'']) (columns df_wb))
             \<and> ((\<forall>w \<in> set (rows df_wb). key_of (columns df_wb) [''countryISO'', ''Year''] w
                       \<noteq> key_of (columns L) [lbl, ''year''] (rows L ! i))
                 \<longrightarrow> e = replicate (length (filter (\<lambda>c. c \<notin> set [''countryISO'', ''Year''])
                                                (columns df_wb))) NaN)"
proof -
  let ?R = "wb_side s lbl df_wb"
  have key: "key_of (columns ?R) [lbl, ''year''] = key_of (columns df_wb) [''countryISO'', ''Year'']"
    by (rule ext) (rule wb_side_key [OF s1 s2 s3])
  have uniq': "distinct (map (key_of (columns ?R) [lbl, ''year'']) (rows ?R))"
    using uniq by (simp only: key wb_side_rows)
  have wfR: "wf_frame ?R" using wfW by (rule wf_wb_side)
  have n: "length (filter (\<lambda>c. c \<notin> set (shared_keys [lbl, ''year''] [lbl, ''year''])) (columns ?R))
         = length (filter (\<lambda>c. c \<notin> set [''countryISO'', ''Year'']) (columns df_wb))"
    unfolding shared_keys_same by (rule wb_side_joined_count [OF s1 s2])
  show "wf_frame M" by (rule join_step(1) [OF ok uniq' wfL wfR])
  fix i assume "i < length (rows L)"
  from join_step(3) [OF ok uniq' wfL wfR this]
  show "\<exists>e. rows M ! i = rows L ! i @ e
             \<and> length e = length (filter (\<lambda>c. c \<notin> set [''countryISO'', ''Year'']) (columns df_wb))
             \<and> ((\<forall>w \<in> set (rows df_wb). key_of (columns df_wb) [''countryISO'', ''Year''] w
                       \<noteq> key_of (columns L) [lbl, ''year''] (rows L ! i))
                 \<longrightarrow> e = replicate (length (filter (\<lambda>c. c \<notin> set [''countryISO'', ''Year''])
                                                (columns df_wb))) NaN)"
    unfolding n key wb_side_rows .
qed

lemma wb_join_length:
  assumes ok: "merge_left L (wb_side s lbl df_wb) [lbl, ''year''] [lbl, ''year''] = Inr M"
    and uniq: "distinct (map (key_of (columns df_wb) [''countryISO'', ''Year'']) (rows df_wb))"
    and s1: "\<And>c. c @ s \<noteq> lbl" and s2: "\<And>c. c @ s \<noteq> ''year''" and s3: "lbl \<noteq> ''year''"
  shows "length (rows M) = length (rows L)"
proof -
  let ?R = "wb_side s lbl df_wb"
  have key: "key_of (columns ?R) [lbl, ''year''] = key_of (columns df_wb) [''countryISO'', ''Year'']"
    by (rule ext) (rule wb_side_key [OF s1 s2 s3])
  have uniq': "distinct (map (key_of (columns ?R) [lbl, ''year'']) (rows ?R))"
    using uniq by (simp only: key wb_side_rows)
  show ?thesis by (rule merge_left_length [OF ok uniq'])
qed

lemma merge_cepii_Inr:
  assumes "merge_cepii m df_cepii = Inr out"
  obtains ks m4 where
    "traverse (\<lambda>(r, p). cepii_merge_key r p)
       (zip (column m ''reporterISO'') (column m ''partnerISO'')) = Inr ks"
    and "merge_left (set_column m ''cepii_merge_key'' ks) df_cepii
           [''cepii_merge_key''] [''cepii_key''] = Inr m4"
    and "out = drop_columns [''cepii_merge_key'', ''cepii_key''] m4"
  using assms unfolding merge_cepii_def
  by (auto split: sum.splits dest: series_Inr)

lemma merge_cepii_length:
  assumes ok: "merge_cepii m df_cepii = Inr out"
    and uniq: "distinct (map (key_of (columns df_cepii) [''cepii_key'']) (rows df_cepii))"
  shows "length (rows out) = length (rows m)"
proof -
  from ok obtain ks m4 where
    tr: "traverse (\<lambda>(r, p). cepii_merge_key r p)
       (zip (column m ''reporterISO'') (column m ''partnerISO'')) = Inr ks"
    and mg: "merge_left (set_column m ''cepii_merge_key'' ks) df_cepii
           [''cepii_merge_key''] [''cepii_key''] = Inr m4"
    and out: "out = drop_columns [''cepii_merge_key'', ''cepii_key''] m4"
    by (rule merge_cepii_Inr)
  have lk: "length ks = length (rows m)"
    using traverse_Inr_length [OF tr] by (simp add: column_def)
  have "length (rows (set_column m ''cepii_merge_key'' ks)) = length (rows m)"
    using lk by (simp add: set_column_def)
  then show ?thesis
    using merge_left_length [OF mg uniq] by (simp add: out drop_columns_def)
qed

lemma merge_cepii_row:
  assumes ok: "merge_cepii m df_cepii = Inr out"
    and uniq: "distinct (map (key_of (columns df_cepii) [''cepii_key'']) (rows df_cepii))"
    and wfm: "wf_frame m" and wfc: "wf_frame df_cepii"
    and fresh: "''cepii_merge_key'' \<notin> set (columns m)"
    and freshc: "''cepii_merge_key'' \<notin> set (columns df_cepii)"
    and i: "i < length (rows m)"
  shows "\<exists>e. rows out ! i = rows m ! i @ e
           \<and> ((\<forall>p \<in> set (rows df_cepii).
                  Inr (cell_at (columns df_cepii) p ''cepii_key'')
                    \<noteq> cepii_merge_key (cell_at (columns m) (rows m ! i) ''reporterISO'')
                                       (cell_at (columns m) (rows m ! i) ''partnerISO''))
               \<longrightarrow> (\<forall>v \<in> set e. v = NaN))"
proof -
  let ?temp = "[''cepii_merge_key'', ''cepii_key'']"
  let ?cmk = "''cepii_merge_key''"
  from ok obtain ks m4 where
    tr: "traverse (\<lambda>(r, p). cepii_merge_key r p)
       (zip (column m ''reporterISO'') (column m ''partnerISO'')) = Inr ks"
    and mg: "merge_left (set_column m ?cmk ks) df_cepii [?cmk] [''cepii_key''] = Inr m4"
    and out: "out = drop_columns ?temp m4"
    by (rule merge_cepii_Inr)
  define L3 where "L3 = set_column m ?cmk ks"
  have mg': "merge_left L3 df_cepii [?cmk] [''cepii_key''] = Inr m4"
    using mg by (simp add: L3_def)
  have lk: "length ks = length (rows m)"
    using traverse_Inr_length [OF tr] by (simp add: column_def)
  have c3: "columns L3 = columns m @ [?cmk]" using fresh by (simp add: L3_def set_column_def)
  have r3: "rows L3 ! i = rows m ! i @ [ks ! i]"
    using fresh i lk by (simp add: L3_def set_column_def)
  have l3: "length (rows L3) = length (rows m)"
    using fresh lk by (simp add: L3_def set_column_def)
  have wf3: "wf_frame L3" unfolding L3_def by (rule set_column_rows(1) [OF wfm lk])
  have lr: "length (rows m ! i) = length (columns m)" using wfm i by (simp add: wf_frame_iff)
  have ki: "cepii_merge_key (cell_at (columns m) (rows m ! i) ''reporterISO'')
                            (cell_at (columns m) (rows m ! i) ''partnerISO'') = Inr (ks ! i)"
    using traverse_Inr_nth [OF tr, of i] i by (simp add: column_def)
  have sh: "shared_keys [?cmk] [''cepii_key''] = []" by (simp add: shared_keys_def)
  have cin: "''cepii_key'' \<in> set (columns df_cepii)"
    using merge_left_Inr(4) [OF mg'] by (simp add: count_one_mem)
  have i3: "i < length (rows L3)" using i l3 by simp
  from join_step(3) [OF mg' uniq wf3 wfc i3] obtain e where
    row4: "rows m4 ! i = rows L3 ! i @ e"
    and le: "length e = length (columns df_cepii)"
    and nomatch: "(\<forall>p \<in> set (rows df_cepii). key_of (columns df_cepii) [''cepii_key''] p
                     \<noteq> key_of (columns L3) [?cmk] (rows L3 ! i))
                  \<Longrightarrow> e = replicate (length (columns df_cepii)) NaN"
    by (auto simp: sh)
  have kl: "cell_at (columns L3) (rows L3 ! i) ?cmk = ks ! i"
    using fresh lr by (simp add: c3 r3 cell_at_append_new)
  let ?sfx = "\<lambda>c. if c \<in> set (columns df_cepii) then c @ ''_x'' else c"
  let ?sfy = "\<lambda>c. if c \<in> set (columns L3) then c @ ''_y'' else c"
  have c4: "columns m4 = (map ?sfx (columns m) @ [?cmk]) @ map ?sfy (columns df_cepii)"
    unfolding merge_left_Inr(1) [OF mg'] sh using freshc by (simp add: c3)
  have l4: "length (rows m4) = length (rows m)"
    using join_step(2) [OF mg' uniq wf3 wfc] l3 by simp
  have rout: "rows out ! i = joined_cells ?temp (columns m4) (rows m4 ! i)"
    using i l4 by (simp add: out drop_columns_def)
  have keepl: "joined_cells ?temp (map ?sfx (columns m)) (rows m ! i) = rows m ! i"
  proof (rule joined_cells_none)
    show "length (rows m ! i) = length (map ?sfx (columns m))" using lr by simp
    fix c assume "c \<in> set (map ?sfx (columns m))"
    then obtain c0 where c0: "c0 \<in> set (columns m)" and c: "c = ?sfx c0" by auto
    show "c \<notin> set ?temp"
    proof (cases "c0 \<in> set (columns df_cepii)")
      case True
      then show ?thesis using c not_suffix_x(4,5) [of c0] by simp
    next
      case False
      then have "c0 \<noteq> ''cepii_key''" using cin by auto
      moreover have "c0 \<noteq> ?cmk" using c0 fresh by auto
      ultimately show ?thesis using c False by simp
    qed
  qed
  have split4: "joined_cells ?temp (columns m4) (rows m4 ! i)
      = (joined_cells ?temp (map ?sfx (columns m)) (rows m ! i)
          @ joined_cells ?temp [?cmk] [ks ! i])
        @ joined_cells ?temp (map ?sfy (columns df_cepii)) e"
    unfolding c4 row4 r3
    by (subst joined_cells_append, simp add: lr, subst joined_cells_append, simp add: lr, rule refl)
  have dropk: "joined_cells ?temp [?cmk] [ks ! i] = []" by (simp add: joined_cells_def)
  define e3 where "e3 = joined_cells ?temp (map ?sfy (columns df_cepii)) e"
  have shape: "rows out ! i = rows m ! i @ e3"
    unfolding rout split4 keepl dropk e3_def by simp
  have nan: "\<forall>v \<in> set e3. v = NaN"
    if "\<forall>p \<in> set (rows df_cepii).
                  Inr (cell_at (columns df_cepii) p ''cepii_key'')
                    \<noteq> cepii_merge_key (cell_at (columns m) (rows m ! i) ''reporterISO'')
                                       (cell_at (columns m) (rows m ! i) ''partnerISO'')"
  proof -
    have "\<forall>p \<in> set (rows df_cepii). key_of (columns df_cepii) [''cepii_key''] p
                     \<noteq> key_of (columns L3) [?cmk] (rows L3 ! i)"
      using that by (simp add: key_of_def kl ki)
    then have "e = replicate (length (columns df_cepii)) NaN" by (rule nomatch)
    then have "set e \<subseteq> {NaN}" by auto
    then show ?thesis using set_joined_cells [of ?temp "map ?sfy (columns df_cepii)" e]
      unfolding e3_def by blast
  qed
  from shape nan show ?thesis by blast
qed

lemma wb_merge_label_left:
  assumes ok: "merge_left L (wb_side s lbl df) lon ron = Inr M"
    and k: "k \<in> set (columns M)"
    and nx: "\<And>c. c @ ''_x'' \<noteq> k" and ny: "\<And>c. c @ ''_y'' \<noteq> k"
    and ns: "\<And>c. c @ s \<noteq> k" and nl: "k \<noteq> lbl" and nyr: "k \<noteq> ''year''"
  shows "k \<in> set (columns L)"
proof -
  have "k \<notin> set (columns (wb_side s lbl df))"
    using wb_side_labels [of k s lbl df] ns nl nyr by auto
  then show ?thesis
    using merge_left_labels [OF ok k] nx ny by auto
qed

lemma coerced_row:
  "map (\<lambda>(c, v). if c = ''year'' then f v else v)
       (zip (map (\<lambda>c. if c = ''period'' then ''year'' else c) cols) r)
   = map (\<lambda>(c, v). if c = ''period'' \<or> c = ''year'' then f v else v) (zip cols r)"
proof (induction cols arbitrary: r)
  case Nil
  then show ?case by simp
next
  case (Cons l cols)
  then show ?case by (cases r) auto
qed

lemma merge_datasets_Inr:
  assumes "merge_datasets tn df_wb df_trade df_cepii = Inr out" and "\<not> pd_empty df_trade"
  obtains t1 m1 m2 where
    "coerce_year tn (if ''period'' \<in> set (columns df_trade)
                     then rename_columns [(''period'', ''year'')] df_trade else df_trade) = Inr t1"
    and "merge_left t1 (wb_side ''_reporter'' ''reporterISO'' df_wb)
           [''reporterISO'', ''year''] [''reporterISO'', ''year''] = Inr m1"
    and "merge_left m1 (wb_side ''_partner'' ''partnerISO'' df_wb)
           [''partnerISO'', ''year''] [''partnerISO'', ''year''] = Inr m2"
    and "(if \<not> pd_empty df_cepii \<and> ''reporterISO'' \<in> set (columns m2)
             \<and> ''partnerISO'' \<in> set (columns m2)
          then merge_cepii m2 df_cepii else Inr m2) = Inr out"
proof -
  define t0 where "t0 = (if ''period'' \<in> set (columns df_trade)
                     then rename_columns [(''period'', ''year'')] df_trade else df_trade)"
  have "merge_datasets tn df_wb df_trade df_cepii =
     (case coerce_year tn t0 of
          Inl e \<Rightarrow> Inl e
        | Inr trade \<Rightarrow>
           (case merge_left trade (wb_side ''_reporter'' ''reporterISO'' df_wb)
                   [''reporterISO'', ''year''] [''reporterISO'', ''year''] of
              Inl e \<Rightarrow> Inl e
            | Inr merged1 \<Rightarrow>
               (case merge_left merged1 (wb_side ''_partner'' ''partnerISO'' df_wb)
                       [''partnerISO'', ''year''] [''partnerISO'', ''year''] of
                  Inl e \<Rightarrow> Inl e
                | Inr merged \<Rightarrow>
                    if \<not> pd_empty df_cepii \<and> ''reporterISO'' \<in> set (columns merged)
                       \<and> ''partnerISO'' \<in> set (columns merged)
                    then merge_cepii merged df_cepii
                    else Inr merged)))"
    unfolding merge_datasets_def t0_def using assms(2) by simp
  with assms(1) obtain t1 m1 m2 where
    "coerce_year tn t0 = Inr t1"
    "merge_left t1 (wb_side ''_reporter'' ''reporterISO'' df_wb)
           [''reporterISO'', ''year''] [''reporterISO'', ''year''] = Inr m1"
    "merge_left m1 (wb_side ''_partner'' ''partnerISO'' df_wb)
           [''partnerISO'', ''year''] [''partnerISO'', ''year''] = Inr m2"
    "(if \<not> pd_empty df_cepii \<and> ''reporterISO'' \<in> set (columns m2)
             \<and> ''partnerISO'' \<in> set (columns m2)
          then merge_cepii m2 df_cepii else Inr m2) = Inr out"
    by (simp split: sum.splits)
  then show ?thesis using that unfolding t0_def by blast
qed

lemma example_merge:
  "merge_datasets example_to_numeric example_wb5 example_flows example_pairs = Inr example_merged"
  by code_simp

text \<open>
  Claim C4. When the indicator table has at most one row per (country, year) and the
  normalized pairwise table at most one row per symmetric key, a run of
  \<^verbatim>\<open>merge_datasets\<close> that returns has exactly one output row per trade row. When
  the temporary label \<^verbatim>\<open>cepii_merge_key\<close> is not a column of the trade table or of
  the pairwise table, output row \<open>i\<close> is trade row \<open>i\<close> with its period or year
  cell made numeric, followed by the cells joined for the reporter, for the partner and for
  the pair; the cells of a join that finds no row with the key of the trade row are all
  missing.
\<close>

theorem merge_datasets_one_row_per_trade_row:
  assumes ok: "merge_datasets to_numeric df_wb df_trade df_cepii = Inr out"
    and uniq_wb: "distinct (map (key_of (columns df_wb) [''countryISO'', ''Year'']) (rows df_wb))"
    and uniq_cepii: "distinct (map (key_of (columns df_cepii) [''cepii_key'']) (rows df_cepii))"
    and wft: "wf_frame df_trade" and wfw: "wf_frame df_wb" and wfc: "wf_frame df_cepii"
  shows "length (rows out) = length (rows df_trade)
    \<and> (\<not> pd_empty df_trade \<and> ''cepii_merge_key'' \<notin> set (columns df_trade)
         \<and> ''cepii_merge_key'' \<notin> set (columns df_cepii) \<longrightarrow>
       (\<forall>i < length (rows df_trade). \<exists>e1 e2 e3.
          rows out ! i
            = map (\<lambda>(c, v). if c = ''period'' \<or> c = ''year''
                             then to_numeric_cell to_numeric v else v)
                  (zip (columns df_trade) (rows df_trade ! i)) @ e1 @ e2 @ e3
          \<and> length e1 = length (filter (\<lambda>c. c \<notin> set [''countryISO'', ''Year'']) (columns df_wb))
          \<and> length e2 = length (filter (\<lambda>c. c \<notin> set [''countryISO'', ''Year'']) (columns df_wb))
          \<and> ((\<forall>w \<in> set (rows df_wb). key_of (columns df_wb) [''countryISO'', ''Year''] w
                \<noteq> [cell_at (columns df_trade) (rows df_trade ! i) ''reporterISO'',
                    to_numeric_cell to_numeric
                      (cell_at (map (\<lambda>c. if c = ''period'' then ''year'' else c) (columns df_trade))
                               (rows df_trade ! i) ''year'')])
              \<longrightarrow> e1 = replicate (length (filter (\<lambda>c. c \<notin> set [''countryISO'', ''Year''])
                                             (columns df_wb))) NaN)
          \<and> ((\<forall>w \<in> set (rows df_wb). key_of (columns df_wb) [''countryISO'', ''Year''] w
                \<noteq> [cell_at (columns df_trade) (rows df_trade ! i) ''partnerISO'',
                    to_numeric_cell to_numeric
                      (cell_at (map (\<lambda>c. if c = ''period'' then ''year'' else c) (columns df_trade))
                               (rows df_trade ! i) ''year'')])
              \<longrightarrow> e2 = replicate (length (filter (\<lambda>c. c \<notin> set [''countryISO'', ''Year''])
                                             (columns df_wb))) NaN)
          \<and> ((\<forall>p \<in> set (rows df_cepii).
                 Inr (cell_at (columns df_cepii) p ''cepii_key'')
                   \<noteq> cepii_merge_key (cell_at (columns df_trade) (rows df_trade ! i) ''reporterISO'')
                                      (cell_at (columns df_trade) (rows df_trade ! i) ''partnerISO''))
              \<longrightarrow> (\<forall>v \<in> set e3. v = NaN))))"
proof (cases "pd_empty df_trade")
  case True
  then have "out = df_trade" using ok by (simp add: merge_datasets_def)
  with True show ?thesis by simp
next
  case False
  let ?g = "\<lambda>c. if c = ''period'' then ''year'' else c"
  let ?tcols = "map ?g (columns df_trade)"
  let ?tn = "to_numeric_cell to_numeric"
  let ?n = "length (filter (\<lambda>c. c \<notin> set [''countryISO'', ''Year'']) (columns df_wb))"
  let ?rep = "wb_side ''_reporter'' ''reporterISO'' df_wb"
  let ?par = "wb_side ''_partner'' ''partnerISO'' df_wb"
  from ok False obtain t1 m1 m2 where
    cy: "coerce_year to_numeric (if ''period'' \<in> set (columns df_trade)
                     then rename_columns [(''period'', ''year'')] df_trade else df_trade) = Inr t1"
    and j1: "merge_left t1 ?rep [''reporterISO'', ''year''] [''reporterISO'', ''year''] = Inr m1"
    and j2: "merge_left m1 ?par [''partnerISO'', ''year''] [''partnerISO'', ''year''] = Inr m2"
    and fin: "(if \<not> pd_empty df_cepii \<and> ''reporterISO'' \<in> set (columns m2)
             \<and> ''partnerISO'' \<in> set (columns m2)
          then merge_cepii m2 df_cepii else Inr m2) = Inr out"
    by (rule merge_datasets_Inr)
  have tc: "columns t1 = ?tcols" by (rule trade_year(1) [OF cy wft])
  have tr: "rows t1 = map (\<lambda>r. map (\<lambda>(c, v). if c = ''year'' then ?tn v else v) (zip ?tcols r))
                       (rows df_trade)"
    by (rule trade_year(2) [OF cy wft])
  have wf1: "wf_frame t1" by (rule trade_year(3) [OF cy wft])
  have l0: "length (rows t1) = length (rows df_trade)" by (simp add: tr)
  have l1: "length (rows m1) = length (rows t1)"
    by (rule wb_join_length [OF j1 uniq_wb]) (simp_all add: not_suffix_side)
  have l2: "length (rows m2) = length (rows m1)"
    by (rule wb_join_length [OF j2 uniq_wb]) (simp_all add: not_suffix_side)
  have l3: "length (rows out) = length (rows m2)"
  proof (cases "\<not> pd_empty df_cepii \<and> ''reporterISO'' \<in> set (columns m2)
             \<and> ''partnerISO'' \<in> set (columns m2)")
    case True
    with fin have "merge_cepii m2 df_cepii = Inr out" by simp
    then show ?thesis using uniq_cepii by (rule merge_cepii_length)
  next
    case False
    with fin show ?thesis by auto
  qed
  have len: "length (rows out) = length (rows df_trade)" using l0 l1 l2 l3 by simp
  have wfm1: "wf_frame m1"
    by (rule wb_join(1) [OF j1 uniq_wb wf1 wfw]) (simp_all add: not_suffix_side)
  have wfm2: "wf_frame m2"
    by (rule wb_join(1) [OF j2 uniq_wb wfm1 wfw]) (simp_all add: not_suffix_side)
  have rep_t: "''reporterISO'' \<in> set (columns t1)" and yr_t: "''year'' \<in> set (columns t1)"
    using merge_left_Inr(3) [OF j1] by (simp_all add: count_one_mem)
  have par_1: "''partnerISO'' \<in> set (columns m1)" and yr_1: "''year'' \<in> set (columns m1)"
    using merge_left_Inr(3) [OF j2] by (simp_all add: count_one_mem)
  have par_t: "''partnerISO'' \<in> set (columns t1)"
    by (rule wb_merge_label_left [OF j1 par_1])
       (simp_all add: not_suffix_x not_suffix_y_key not_suffix_side)
  have rep_1: "''reporterISO'' \<in> set (columns m1)"
    by (rule merge_left_keeps_label [OF j1 rep_t]) (simp add: shared_keys_same)
  have rep_free: "''reporterISO'' \<notin> set (columns ?par)"
    using wb_side_labels [of "''reporterISO''" "''_partner''" "''partnerISO''" df_wb]
    by (auto simp: not_suffix_side [symmetric])
  have par_free: "''partnerISO'' \<notin> set (columns ?rep)"
    using wb_side_labels [of "''partnerISO''" "''_reporter''" "''reporterISO''" df_wb]
    by (auto simp: not_suffix_side [symmetric])
  have shape: "\<exists>e1 e2 e3.
          rows out ! i
            = map (\<lambda>(c, v). if c = ''period'' \<or> c = ''year'' then ?tn v else v)
                  (zip (columns df_trade) (rows df_trade ! i)) @ e1 @ e2 @ e3
          \<and> length e1 = ?n \<and> length e2 = ?n
          \<and> ((\<forall>w \<in> set (rows df_wb). key_of (columns df_wb) [''countryISO'', ''Year''] w
                \<noteq> [cell_at (columns df_trade) (rows df_trade ! i) ''reporterISO'',
                    ?tn (cell_at ?tcols (rows df_trade ! i) ''year'')])
              \<longrightarrow> e1 = replicate ?n NaN)
          \<and> ((\<forall>w \<in> set (rows df_wb). key_of (columns df_wb) [''countryISO'', ''Year''] w
                \<noteq> [cell_at (columns df_trade) (rows df_trade ! i) ''partnerISO'',
                    ?tn (cell_at ?tcols (rows df_trade ! i) ''year'')])
              \<longrightarrow> e2 = replicate ?n NaN)
          \<and> ((\<forall>p \<in> set (rows df_cepii).
                 Inr (cell_at (columns df_cepii) p ''cepii_key'')
                   \<noteq> cepii_merge_key (cell_at (columns df_trade) (rows df_trade ! i) ''reporterISO'')
                                      (cell_at (columns df_trade) (rows df_trade ! i) ''partnerISO''))
              \<longrightarrow> (\<forall>v \<in> set e3. v = NaN))"
    if fresh: "''cepii_merge_key'' \<notin> set (columns df_trade)"
      and freshc: "''cepii_merge_key'' \<notin> set (columns df_cepii)"
      and i: "i < length (rows df_trade)" for i
  proof -
    let ?r = "rows df_trade ! i"
    define T where "T = map (\<lambda>(c, v). if c = ''year'' then ?tn v else v) (zip ?tcols ?r)"
    have Ti: "rows t1 ! i = T" using i by (simp add: tr T_def)
    have i1: "i < length (rows t1)" using i l0 by simp
    have i2: "i < length (rows m1)" using i l0 l1 by simp
    have i3: "i < length (rows m2)" using i l0 l1 l2 by simp
    have lenT: "length T = length (columns t1)"
    proof -
      have "rows t1 ! i \<in> set (rows t1)" using i1 by simp
      then have "length (rows t1 ! i) = length (columns t1)"
        using wf1 by (simp add: wf_frame_iff)
      then show ?thesis by (simp add: Ti)
    qed
    have T_rep: "cell_at (columns t1) T ''reporterISO''
                   = cell_at (columns df_trade) ?r ''reporterISO''"
    proof -
      have "cell_at ?tcols T ''reporterISO'' = cell_at ?tcols ?r ''reporterISO''"
        unfolding T_def by (rule cell_at_map_other) simp
      also have "\<dots> = cell_at (columns df_trade) ?r ''reporterISO''"
        by (rule cell_at_relabel_key) auto
      finally show ?thesis by (simp add: tc)
    qed
    have T_par: "cell_at (columns t1) T ''partnerISO''
                   = cell_at (columns df_trade) ?r ''partnerISO''"
    proof -
      have "cell_at ?tcols T ''partnerISO'' = cell_at ?tcols ?r ''partnerISO''"
        unfolding T_def by (rule cell_at_map_other) simp
      also have "\<dots> = cell_at (columns df_trade) ?r ''partnerISO''"
        by (rule cell_at_relabel_key) auto
      finally show ?thesis by (simp add: tc)
    qed
    have T_yr: "cell_at (columns t1) T ''year'' = ?tn (cell_at ?tcols ?r ''year'')"
      unfolding T_def tc by (rule cell_at_map_at) simp
    from wb_join(2) [OF j1 uniq_wb wf1 wfw _ _ _ i1] obtain e1 where
      row1: "rows m1 ! i = T @ e1" and le1: "length e1 = ?n"
      and no1: "(\<forall>w \<in> set (rows df_wb). key_of (columns df_wb) [''countryISO'', ''Year''] w
                       \<noteq> key_of (columns t1) [''reporterISO'', ''year''] T)
                 \<Longrightarrow> e1 = replicate ?n NaN"
      unfolding Ti by (auto simp: not_suffix_side)
    from wb_join(2) [OF j2 uniq_wb wfm1 wfw _ _ _ i2] obtain e2 where
      row2: "rows m2 ! i = (T @ e1) @ e2" and le2: "length e2 = ?n"
      and no2: "(\<forall>w \<in> set (rows df_wb). key_of (columns df_wb) [''countryISO'', ''Year''] w
                       \<noteq> key_of (columns m1) [''partnerISO'', ''year''] (T @ e1))
                 \<Longrightarrow> e2 = replicate ?n NaN"
      unfolding row1 by (auto simp: not_suffix_side)
    have len1: "length (T @ e1) = length (columns m1)"
    proof -
      have "rows m1 ! i \<in> set (rows m1)" using i2 by simp
      then have "length (rows m1 ! i) = length (columns m1)"
        using wfm1 by (simp add: wf_frame_iff)
      then show ?thesis by (simp add: row1)
    qed
    have m1_par: "cell_at (columns m1) (T @ e1) ''partnerISO'' = cell_at (columns t1) T ''partnerISO''"
      by (rule merge_left_cell_left [OF j1 par_t lenT]) (simp_all add: par_free not_suffix_x)
    have m1_rep: "cell_at (columns m1) (T @ e1) ''reporterISO'' = cell_at (columns t1) T ''reporterISO''"
      by (rule merge_left_cell_left [OF j1 rep_t lenT])
         (simp_all add: shared_keys_same not_suffix_x)
    have m1_yr: "cell_at (columns m1) (T @ e1) ''year'' = cell_at (columns t1) T ''year''"
      by (rule merge_left_cell_left [OF j1 yr_t lenT])
         (simp_all add: shared_keys_same not_suffix_x)
    have m2_rep: "cell_at (columns m2) ((T @ e1) @ e2) ''reporterISO''
                    = cell_at (columns m1) (T @ e1) ''reporterISO''"
      by (rule merge_left_cell_left [OF j2 rep_1 len1]) (simp_all add: rep_free not_suffix_x)
    have m2_par: "cell_at (columns m2) ((T @ e1) @ e2) ''partnerISO''
                    = cell_at (columns m1) (T @ e1) ''partnerISO''"
      by (rule merge_left_cell_left [OF j2 par_1 len1])
         (simp_all add: shared_keys_same not_suffix_x)
    have k1: "key_of (columns t1) [''reporterISO'', ''year''] T
                = [cell_at (columns df_trade) ?r ''reporterISO'', ?tn (cell_at ?tcols ?r ''year'')]"
      by (simp add: key_of_def T_rep T_yr)
    have k2: "key_of (columns m1) [''partnerISO'', ''year''] (T @ e1)
                = [cell_at (columns df_trade) ?r ''partnerISO'', ?tn (cell_at ?tcols ?r ''year'')]"
      by (simp add: key_of_def m1_par m1_yr T_par T_yr)
    have fresh_t: "''cepii_merge_key'' \<notin> set (columns t1)"
      using fresh by (auto simp: tc split: if_splits)
    have fresh_1: "''cepii_merge_key'' \<notin> set (columns m1)"
    proof
      assume "''cepii_merge_key'' \<in> set (columns m1)"
      then have "''cepii_merge_key'' \<in> set (columns t1)"
        by (rule wb_merge_label_left [OF j1])
           (simp_all add: not_suffix_x not_suffix_y not_suffix_side)
      with fresh_t show False by simp
    qed
    have fresh_2: "''cepii_merge_key'' \<notin> set (columns m2)"
    proof
      assume "''cepii_merge_key'' \<in> set (columns m2)"
      then have "''cepii_merge_key'' \<in> set (columns m1)"
        by (rule wb_merge_label_left [OF j2])
           (simp_all add: not_suffix_x not_suffix_y not_suffix_side)
      with fresh_1 show False by simp
    qed
    have "\<exists>e3. rows out ! i = rows m2 ! i @ e3
           \<and> ((\<forall>p \<in> set (rows df_cepii).
                  Inr (cell_at (columns df_cepii) p ''cepii_key'')
                    \<noteq> cepii_merge_key (cell_at (columns m2) (rows m2 ! i) ''reporterISO'')
                                       (cell_at (columns m2) (rows m2 ! i) ''partnerISO''))
               \<longrightarrow> (\<forall>v \<in> set e3. v = NaN))"
    proof (cases "\<not> pd_empty df_cepii \<and> ''reporterISO'' \<in> set (columns m2)
             \<and> ''partnerISO'' \<in> set (columns m2)")
      case True
      with fin have "merge_cepii m2 df_cepii = Inr out" by simp
      then show ?thesis
        using uniq_cepii wfm2 wfc fresh_2 freshc i3 by (rule merge_cepii_row)
    next
      case False
      with fin have "out = m2" by auto
      then show ?thesis by (intro exI [of _ "[]"]) simp
    qed
    then obtain e3 where
      row3: "rows out ! i = rows m2 ! i @ e3"
      and no3: "(\<forall>p \<in> set (rows df_cepii).
                  Inr (cell_at (columns df_cepii) p ''cepii_key'')
                    \<noteq> cepii_merge_key (cell_at (columns df_trade) ?r ''reporterISO'')
                                       (cell_at (columns df_trade) ?r ''partnerISO''))
               \<Longrightarrow> (\<forall>v \<in> set e3. v = NaN)"
      unfolding row2 m2_rep m2_par m1_rep m1_par T_rep T_par by blast
    have T_eq: "T = map (\<lambda>(c, v). if c = ''period'' \<or> c = ''year'' then ?tn v else v)
                  (zip (columns df_trade) ?r)"
      unfolding T_def by (rule coerced_row)
    have r: "rows out ! i = T @ e1 @ e2 @ e3" by (simp add: row3 row2)
    show ?thesis
      unfolding T_eq [symmetric]
      using r le1 le2 no1 [unfolded k1] no2 [unfolded k2] no3
      by (intro exI [of _ e1] exI [of _ e2] exI [of _ e3]) blast
  qed
  from len shape show ?thesis by blast
qed

theorem merge_datasets_one_row_per_trade_row_witness:
  "merge_datasets example_to_numeric example_wb5 example_flows example_pairs = Inr example_merged
   \<and> distinct (map (key_of (columns example_wb5) [''countryISO'', ''Year'']) (rows example_wb5))
   \<and> distinct (map (key_of (columns example_pairs) [''cepii_key'']) (rows example_pairs))
   \<and> wf_frame example_flows \<and> wf_frame example_wb5 \<and> wf_frame example_pairs
   \<and> \<not> pd_empty example_flows
   \<and> ''cepii_merge_key'' \<notin> set (columns example_flows)
   \<and> ''cepii_merge_key'' \<notin> set (columns example_pairs)
   \<and> length (rows example_merged) = length (rows example_flows)
   \<and> (\<exists>e1 e2 e3.
        rows example_merged ! 1 = [Num 5, Str ''USA'', Str ''CHN'', Str ''01''] @ e1 @ e2 @ e3
        \<and> length e1 = 1 \<and> e2 = [NaN] \<and> e3 = [NaN])"
proof -
  have u1: "distinct (map (key_of (columns example_wb5) [''countryISO'', ''Year''])
                          (rows example_wb5))"
    by (simp add: example_wb5_def key_of_def cell_at_def)
  have u2: "distinct (map (key_of (columns example_pairs) [''cepii_key'']) (rows example_pairs))"
    by (simp add: example_pairs_def key_of_def cell_at_def)
  have w: "wf_frame example_flows" "wf_frame example_wb5" "wf_frame example_pairs"
    by (simp_all add: wf_frame_def example_flows_def example_wb5_def example_pairs_def)
  have f: "\<not> pd_empty example_flows" "''cepii_merge_key'' \<notin> set (columns example_flows)"
    "''cepii_merge_key'' \<notin> set (columns example_pairs)"
    by (simp_all add: pd_empty_def example_flows_def example_pairs_def)
  have i: "1 < length (rows example_flows)" by (simp add: example_flows_def)
  have t: "map (\<lambda>(c, v). if c = ''period'' \<or> c = ''year''
                           then to_numeric_cell example_to_numeric v else v)
               (zip (columns example_flows) (rows example_flows ! 1))
           = [Num 5, Str ''USA'', Str ''CHN'', Str ''01'']"
    by code_simp
  have n: "length (filter (\<lambda>c. c \<notin> set [''countryISO'', ''Year'']) (columns example_wb5)) = 1"
    by (simp add: example_wb5_def)
  have no2: "\<forall>w \<in> set (rows example_wb5).
        key_of (columns example_wb5) [''countryISO'', ''Year''] w
          \<noteq> [cell_at (columns example_flows) (rows example_flows ! 1) ''partnerISO'',
              to_numeric_cell example_to_numeric
                (cell_at (map (\<lambda>c. if c = ''period'' then ''year'' else c) (columns example_flows))
                         (rows example_flows ! 1) ''year'')]"
    by (simp add: example_wb5_def example_flows_def key_of_def cell_at_def)
  have no3: "\<forall>p \<in> set (rows example_pairs).
        Inr (cell_at (columns example_pairs) p ''cepii_key'')
          \<noteq> cepii_merge_key (cell_at (columns example_flows) (rows example_flows ! 1) ''reporterISO'')
                             (cell_at (columns example_flows) (rows example_flows ! 1) ''partnerISO'')"
    by (simp add: example_pairs_def example_flows_def cell_at_def cepii_merge_key_def dash_join_def)
  from merge_datasets_one_row_per_trade_row [OF example_merge u1 u2 w] f i
  have len: "length (rows example_merged) = length (rows example_flows)"
    and "\<exists>e1 e2 e3.
          rows example_merged ! 1
            = map (\<lambda>(c, v). if c = ''period'' \<or> c = ''year''
                             then to_numeric_cell example_to_numeric v else v)
                  (zip (columns example_flows) (rows example_flows ! 1)) @ e1 @ e2 @ e3
          \<and> length e1 = length (filter (\<lambda>c. c \<notin> set [''countryISO'', ''Year''])
                                  (columns example_wb5))
          \<and> ((\<forall>w \<in> set (rows example_wb5).
                 key_of (columns example_wb5) [''countryISO'', ''Year''] w
                \<noteq> [cell_at (columns example_flows) (rows example_flows ! 1) ''partnerISO'',
                    to_numeric_cell example_to_numeric
                      (cell_at (map (\<lambda>c. if c = ''period'' then ''year'' else c)
                                    (columns example_flows))
                               (rows example_flows ! 1) ''year'')])
              \<longrightarrow> e2 = replicate (length (filter (\<lambda>c. c \<notin> set [''countryISO'', ''Year''])
                                             (columns example_wb5))) NaN)
          \<and> ((\<forall>p \<in> set (rows example_pairs).
                 Inr (cell_at (columns example_pairs) p ''cepii_key'')
                   \<noteq> cepii_merge_key
                        (cell_at (columns example_flows) (rows example_flows ! 1) ''reporterISO'')
                        (cell_at (columns example_flows) (rows example_flows ! 1) ''partnerISO''))
              \<longrightarrow> (\<forall>v \<in> set e3. v = NaN))"
    by blast+
  then obtain e1 e2 e3 where
    row: "rows example_merged ! 1 = [Num 5, Str ''USA'', Str ''CHN'', Str ''01''] @ e1 @ e2 @ e3"
    and l1: "length e1 = 1" and e2: "e2 = [NaN]" and e3: "\<forall>v \<in> set e3. v = NaN"
    unfolding t n using no2 no3 by auto
  from l1 obtain a where a: "e1 = [a]" by (cases e1) auto
  have "e3 = [NaN]"
    using row unfolding a e2 by (simp add: example_merged_def)
  with row l1 e2 have "\<exists>e1 e2 e3.
        rows example_merged ! 1 = [Num 5, Str ''USA'', Str ''CHN'', Str ''01''] @ e1 @ e2 @ e3
        \<and> length e1 = 1 \<and> e2 = [NaN] \<and> e3 = [NaN]" by blast
  with example_merge u1 u2 w f len show ?thesis by blast
qed

end
